theory Spec2Isabelle
  imports Complex_Main "HOL-Library.AList" "HOL-Library.Word"
begin

section \<open>Python values used by \<^verbatim>\<open>conversor_monedas.py\<close>\<close>

subsection \<open>Exceptions\<close>

text \<open>
  Every exception the program can raise is a value. \<open>InvalidOperation\<close>,
  \<open>DivisionByZero\<close> and \<open>Overflow\<close> are the signals of the \<^verbatim>\<open>decimal\<close> module that the
  default context traps; \<open>URLError\<close> stands for \<^verbatim>\<open>urllib.error.URLError\<close> and its subclass
  \<^verbatim>\<open>HTTPError\<close>; \<open>OtherException\<close> for any other exception of the transport (a timeout
  while reading, undecodable bytes, text that is not JSON).
\<close>

datatype exn =
    InvalidOperation | DivisionByZero | Overflow
  | KeyError | TypeError | AttributeError | ValueError | OverflowError
  | RuntimeError | EOFError | URLError | OtherException

subsection \<open>\<^verbatim>\<open>decimal.Decimal\<close>\<close>

text \<open>
  A \<^verbatim>\<open>Decimal\<close> is a sign, a coefficient and an exponent, or one of the special values.
  \<open>Finite s c e\<close> is \<open>(-1)^s * c * 10^e\<close> (\<open>s = True\<close> is the negative sign);
  \<open>NaN s sig p\<close> is a quiet (\<open>sig = False\<close>) or signalling NaN with payload \<open>p\<close>.
  The context is the module's default one with the precision set at line 11 of the source:
  \<^verbatim>\<open>getcontext().prec = 28\<close>, rounding \<^verbatim>\<open>ROUND_HALF_EVEN\<close>, \<^verbatim>\<open>Emax = 999999\<close>,
  \<^verbatim>\<open>Emin = -999999\<close>, traps for \<^verbatim>\<open>InvalidOperation\<close>, \<^verbatim>\<open>DivisionByZero\<close> and \<^verbatim>\<open>Overflow\<close>.
\<close>

datatype decimal =
    Finite bool nat int
  | Infinity bool
  | NaN bool bool nat

definition prec :: nat where "prec = 28"
definition Emax :: int where "Emax = 999999"
definition Emin :: int where "Emin = - 999999"
definition Etiny :: int where "Etiny = Emin - int prec + 1"
definition Etop :: int where "Etop = Emax - int prec + 1"

text \<open>The number of decimal digits of a coefficient: \<^verbatim>\<open>len(self._int)\<close>.\<close>

fun ndigits :: "nat \<Rightarrow> nat" where
  "ndigits n = (if n < 10 then 1 else Suc (ndigits (n div 10)))"

declare ndigits.simps [simp del]

text \<open>\<^verbatim>\<open>Decimal.adjusted()\<close>: the exponent of the first digit.\<close>

definition adjusted :: "nat \<Rightarrow> int \<Rightarrow> int" where
  "adjusted c e = e + int (ndigits c) - 1"

text \<open>The mathematical value of a finite decimal.\<close>

definition fin_val :: "bool \<Rightarrow> nat \<Rightarrow> int \<Rightarrow> real" where
  "fin_val s c e =
     (if s then - 1 else 1) *
     (if 0 \<le> e then real c * 10 ^ nat e else real c / 10 ^ nat (- e))"

subsection \<open>Text\<close>

text \<open>
  Strings are lists of characters, read as code points below 256. \<open>is_space\<close> is what
  \<^verbatim>\<open>str.strip()\<close> removes among them (tab to carriage return, the four separators, the
  space, NEL and the no-break space), \<open>lower\<close> is \<^verbatim>\<open>str.lower()\<close> on ASCII letters.
\<close>

definition is_space :: "char \<Rightarrow> bool" where
  "is_space c =
     (let n = (of_char c :: nat)
      in (9 \<le> n \<and> n \<le> 13) \<or> (28 \<le> n \<and> n \<le> 32) \<or> n = 133 \<or> n = 160)"

definition is_digit :: "char \<Rightarrow> bool" where
  "is_digit c = (let n = (of_char c :: nat) in 48 \<le> n \<and> n \<le> 57)"

definition digit_val :: "char \<Rightarrow> nat" where
  "digit_val c = of_char c - 48"

definition digit_char :: "nat \<Rightarrow> char" where
  "digit_char d = ''0123456789'' ! d"

definition lower :: "char \<Rightarrow> char" where
  "lower c = (let n = (of_char c :: nat) in if 65 \<le> n \<and> n \<le> 90 then char_of (n + 32) else c)"

definition strip :: "string \<Rightarrow> string" where
  "strip s = rev (dropWhile is_space (rev (dropWhile is_space s)))"

text \<open>\<^verbatim>\<open>int(ds)\<close> for a string of digits (0 for the empty string).\<close>

definition nat_of_digits :: "string \<Rightarrow> nat" where
  "nat_of_digits ds = foldl (\<lambda>n c. 10 * n + digit_val c) 0 ds"

text \<open>\<^verbatim>\<open>str(n)\<close> for a natural number.\<close>

fun digits_of :: "nat \<Rightarrow> string" where
  "digits_of n =
     (if n < 10 then [digit_char n] else digits_of (n div 10) @ [digit_char (n mod 10)])"

declare digits_of.simps [simp del]

text \<open>An optional leading sign: \<^verbatim>\<open>[-+]?\<close>.\<close>

definition split_sign :: "string \<Rightarrow> bool \<times> string" where
  "split_sign s =
     (case s of
        [] \<Rightarrow> (False, [])
      | c # r \<Rightarrow>
          if c = CHR ''-'' then (True, r)
          else if c = CHR ''+'' then (False, r)
          else (False, s))"

subsection \<open>\<^verbatim>\<open>Decimal(text)\<close>\<close>

text \<open>
  The constructor strips the text, removes underscores and matches it against the
  module's grammar: an optional sign, then a number (digits with an optional fraction
  and an optional exponent \<^verbatim>\<open>E[-+]?\d+\<close>, at least one digit before the exponent), or
  \<^verbatim>\<open>Inf\<close>/\<^verbatim>\<open>Infinity\<close>, or \<^verbatim>\<open>NaN\<close>/\<^verbatim>\<open>sNaN\<close> with an optional payload of digits; letters in
  either case. Text that does not match raises \<^verbatim>\<open>InvalidOperation\<close>. The constructor
  does not round: the value is exact.
\<close>

definition parse_exponent :: "string \<Rightarrow> int option" where
  "parse_exponent s =
     (let (neg, ds) = split_sign s in
      if ds \<noteq> [] \<and> list_all is_digit ds
      then Some (if neg then - int (nat_of_digits ds) else int (nat_of_digits ds))
      else None)"

definition parse_number :: "bool \<Rightarrow> string \<Rightarrow> decimal option" where
  "parse_number neg s =
     (let intpart = takeWhile is_digit s;
          r1 = dropWhile is_digit s;
          (fracpart, r2) =
             (case r1 of
                [] \<Rightarrow> ([], [])
              | c # r \<Rightarrow>
                  if c = CHR ''.'' then (takeWhile is_digit r, dropWhile is_digit r)
                  else ([], r1));
          coeff = nat_of_digits (intpart @ fracpart)
      in if intpart = [] \<and> fracpart = [] then None
         else (case r2 of
                 [] \<Rightarrow> Some (Finite neg coeff (- int (length fracpart)))
               | c # r \<Rightarrow>
                   if lower c = CHR ''e''
                   then map_option (\<lambda>e. Finite neg coeff (e - int (length fracpart)))
                          (parse_exponent r)
                   else None))"

definition parse_special :: "bool \<Rightarrow> string \<Rightarrow> decimal option" where
  "parse_special neg s =
     (let l = map lower s in
      if l = ''inf'' \<or> l = ''infinity'' then Some (Infinity neg)
      else if take 3 l = ''nan'' \<and> list_all is_digit (drop 3 l)
        then Some (NaN neg False (nat_of_digits (drop 3 l)))
      else if take 4 l = ''snan'' \<and> list_all is_digit (drop 4 l)
        then Some (NaN neg True (nat_of_digits (drop 4 l)))
      else None)"

text \<open>
  The constructor converts in the widest context of the library, and a number that does
  not fit it exactly raises \<^verbatim>\<open>InvalidOperation\<close>: the exponent of the first digit is at
  most \<open>999999999999999999\<close> and the exponent at least \<open>-1999999999999999997\<close>.
\<close>

fun fits_max_context :: "decimal \<Rightarrow> bool" where
  "fits_max_context (Finite s c e) =
     (- 1999999999999999997 \<le> e \<and> adjusted c e \<le> 999999999999999999)"
| "fits_max_context d = True"

definition Decimal_of_string :: "string \<Rightarrow> exn + decimal" where
  "Decimal_of_string text =
     (let (neg, body) = split_sign (filter (\<lambda>c. c \<noteq> CHR ''_'') (strip text)) in
      case parse_number neg body of
        Some d \<Rightarrow> if fits_max_context d then Inr d else Inl InvalidOperation
      | None \<Rightarrow>
          (case parse_special neg body of
             Some d \<Rightarrow> Inr d
           | None \<Rightarrow> Inl InvalidOperation))"

text \<open>\<^verbatim>\<open>Decimal(n)\<close> for an integer.\<close>

definition Decimal_of_int :: "int \<Rightarrow> decimal" where
  "Decimal_of_int n = Finite (n < 0) (nat \<bar>n\<bar>) 0"

subsection \<open>\<^verbatim>\<open>str(Decimal)\<close>\<close>

text \<open>
  \<^verbatim>\<open>Decimal.__str__\<close>: plain notation when the exponent is at most 0 and the number has
  more than \<open>-6\<close> digits to the left of the point, scientific notation with one digit
  before the point otherwise. An f-string with no format specification gives the same
  text.
\<close>

definition str_of_int :: "int \<Rightarrow> string" where
  "str_of_int n = (if n < 0 then ''-'' else '''') @ digits_of (nat \<bar>n\<bar>)"

definition signed_exponent :: "int \<Rightarrow> string" where
  "signed_exponent n = (if n < 0 then ''-'' else ''+'') @ digits_of (nat \<bar>n\<bar>)"

definition str_Decimal :: "decimal \<Rightarrow> string" where
  "str_Decimal d =
     (case d of
        Infinity s \<Rightarrow> (if s then ''-'' else '''') @ ''Infinity''
      | NaN s sig p \<Rightarrow>
          (if s then ''-'' else '''') @ (if sig then ''sNaN'' else ''NaN'') @
          (if p = 0 then '''' else digits_of p)
      | Finite s c e \<Rightarrow>
          (let ds = digits_of c;
               leftdigits = e + int (length ds);
               dotplace = (if e \<le> 0 \<and> leftdigits > - 6 then leftdigits else 1);
               intpart =
                 (if dotplace \<le> 0 then ''0''
                  else if dotplace \<ge> int (length ds)
                    then ds @ replicate (nat (dotplace - int (length ds))) CHR ''0''
                  else take (nat dotplace) ds);
               fracpart =
                 (if dotplace \<le> 0 then ''.'' @ replicate (nat (- dotplace)) CHR ''0'' @ ds
                  else if dotplace \<ge> int (length ds) then ''''
                  else ''.'' @ drop (nat dotplace) ds);
               ex = (if leftdigits = dotplace then ''''
                     else ''E'' @ signed_exponent (leftdigits - dotplace))
           in (if s then ''-'' else '''') @ intpart @ fracpart @ ex))"

subsection \<open>Arithmetic in the context\<close>

datatype rounding = ROUND_HALF_UP | ROUND_HALF_EVEN

text \<open>
  Dropping the last \<open>k\<close> digits of a coefficient. \<^verbatim>\<open>ROUND_HALF_UP\<close> rounds up when the
  first dropped digit is 5 or more; \<^verbatim>\<open>ROUND_HALF_EVEN\<close> rounds up when the dropped part
  is more than a half, or exactly a half and the kept part is odd.
\<close>

definition round_coeff :: "rounding \<Rightarrow> nat \<Rightarrow> nat \<Rightarrow> nat" where
  "round_coeff mode c k =
     (let q = c div 10 ^ k;
          r = c mod 10 ^ k;
          up = (case mode of
                  ROUND_HALF_UP \<Rightarrow> 10 ^ k \<le> 2 * r
                | ROUND_HALF_EVEN \<Rightarrow> 10 ^ k < 2 * r \<or> (2 * r = 10 ^ k \<and> odd q))
      in if up then q + 1 else q)"

text \<open>
  \<^verbatim>\<open>Decimal._fix\<close>: the result of an operation is rounded to \<open>prec\<close> digits with the
  context's rounding, its exponent kept at or above \<open>Etiny\<close> (a subnormal result loses
  digits); a result above \<open>Emax\<close> signals \<^verbatim>\<open>Overflow\<close>, which is trapped. The signals
  \<^verbatim>\<open>Inexact\<close>, \<^verbatim>\<open>Rounded\<close>, \<^verbatim>\<open>Subnormal\<close>, \<^verbatim>\<open>Underflow\<close> and \<^verbatim>\<open>Clamped\<close> are not trapped
  and only set flags.
\<close>

definition dec_fix :: "bool \<Rightarrow> nat \<Rightarrow> int \<Rightarrow> exn + decimal" where
  "dec_fix s c e =
     (if c = 0 then Inr (Finite s 0 (min (max e Etiny) Emax))
      else
        let exp_min0 = int (ndigits c) + e - int prec in
        if exp_min0 > Etop then Inl Overflow
        else
          let exp_min = max exp_min0 Etiny in
          if e < exp_min then
            let coeff = round_coeff ROUND_HALF_EVEN c (nat (exp_min - e));
                carried = (ndigits coeff > prec);
                coeff' = (if carried then coeff div 10 else coeff);
                exp' = (if carried then exp_min + 1 else exp_min)
            in if exp' > Etop then Inl Overflow else Inr (Finite s coeff' exp')
          else Inr (Finite s c e))"

text \<open>
  \<^verbatim>\<open>Decimal._check_nans\<close> for an operation with a NaN operand: a signalling NaN raises
  \<^verbatim>\<open>InvalidOperation\<close>, a quiet one is the result (the first operand's, if both are),
  its payload cut to \<open>prec\<close> digits.
\<close>

definition fix_nan :: "bool \<Rightarrow> nat \<Rightarrow> decimal" where
  "fix_nan s p = NaN s False (if ndigits p > prec then p mod 10 ^ prec else p)"

fun nan_result :: "decimal \<Rightarrow> decimal \<Rightarrow> exn + decimal" where
  "nan_result (NaN s True p) b = Inl InvalidOperation"
| "nan_result a (NaN s True p) = Inl InvalidOperation"
| "nan_result (NaN s False p) b = Inr (fix_nan s p)"
| "nan_result a (NaN s False p) = Inr (fix_nan s p)"
| "nan_result a b = Inl InvalidOperation"

text \<open>\<^verbatim>\<open>Decimal.__mul__\<close>: the exact product, then \<open>dec_fix\<close>.\<close>

fun dec_mul :: "decimal \<Rightarrow> decimal \<Rightarrow> exn + decimal" where
  "dec_mul (Finite s c e) (Finite s' c' e') = dec_fix (s \<noteq> s') (c * c') (e + e')"
| "dec_mul (Infinity s) (Finite s' c' e') =
     (if c' = 0 then Inl InvalidOperation else Inr (Infinity (s \<noteq> s')))"
| "dec_mul (Finite s c e) (Infinity s') =
     (if c = 0 then Inl InvalidOperation else Inr (Infinity (s \<noteq> s')))"
| "dec_mul (Infinity s) (Infinity s') = Inr (Infinity (s \<noteq> s'))"
| "dec_mul a b = nan_result a b"

text \<open>
  \<^verbatim>\<open>Decimal.__truediv__\<close>. The quotient of the coefficients is computed with
  \<open>prec + 1\<close> or \<open>prec + 2\<close> digits; when the division is not exact a last digit 0 or 5
  is made 1 or 6, so that \<open>dec_fix\<close> rounds the way the exact quotient rounds. An exact
  quotient loses trailing zeros up to the ideal exponent \<open>e - e'\<close>.
\<close>

function strip_zeros :: "nat \<Rightarrow> int \<Rightarrow> int \<Rightarrow> nat \<times> int" where
  "strip_zeros coeff ex ideal =
     (if ex < ideal \<and> coeff mod 10 = 0 then strip_zeros (coeff div 10) (ex + 1) ideal
      else (coeff, ex))"
  by pat_completeness auto
termination
  by (relation "measure (\<lambda>(coeff, ex, ideal). nat (ideal - ex))") auto

declare strip_zeros.simps [simp del]

definition div_coeff :: "nat \<Rightarrow> int \<Rightarrow> nat \<Rightarrow> int \<Rightarrow> nat \<times> int" where
  "div_coeff c e c' e' =
     (let shift = int (ndigits c') - int (ndigits c) + int prec + 1;
          ex = e - e' - shift;
          num = (if 0 \<le> shift then c * 10 ^ nat shift else c);
          den = (if 0 \<le> shift then c' else c' * 10 ^ nat (- shift));
          q = num div den;
          r = num mod den
      in if r \<noteq> 0 then (if q mod 5 = 0 then q + 1 else q, ex)
         else strip_zeros q ex (e - e'))"

fun dec_div :: "decimal \<Rightarrow> decimal \<Rightarrow> exn + decimal" where
  "dec_div (Finite s c e) (Finite s' c' e') =
     (if c' = 0 then (if c = 0 then Inl InvalidOperation else Inl DivisionByZero)
      else if c = 0 then dec_fix (s \<noteq> s') 0 (e - e')
      else (case div_coeff c e c' e' of (q, ex) \<Rightarrow> dec_fix (s \<noteq> s') q ex))"
| "dec_div (Infinity s) (Finite s' c' e') = Inr (Infinity (s \<noteq> s'))"
| "dec_div (Finite s c e) (Infinity s') = Inr (Finite (s \<noteq> s') 0 Etiny)"
| "dec_div (Infinity s) (Infinity s') = Inl InvalidOperation"
| "dec_div a b = nan_result a b"

text \<open>
  \<^verbatim>\<open>Decimal.quantize(exp, rounding)\<close>: the value with the exponent of \<open>exp\<close>. It raises
  \<^verbatim>\<open>InvalidOperation\<close> when the result would need more than \<open>prec\<close> digits, and for an
  infinite operand.
\<close>

definition rescale :: "bool \<Rightarrow> nat \<Rightarrow> int \<Rightarrow> int \<Rightarrow> rounding \<Rightarrow> nat" where
  "rescale s c e ex mode =
     (if c = 0 then 0
      else if ex \<le> e then c * 10 ^ nat (e - ex)
      else round_coeff mode c (nat (ex - e)))"

fun quantize :: "decimal \<Rightarrow> decimal \<Rightarrow> rounding \<Rightarrow> exn + decimal" where
  "quantize (Finite s c e) (Finite s' c' e') mode =
     (if \<not> (Etiny \<le> e' \<and> e' \<le> Emax) then Inl InvalidOperation
      else if c = 0 then dec_fix s 0 e'
      else
        if adjusted c e > Emax then Inl InvalidOperation
        else if adjusted c e - e' + 1 > int prec then Inl InvalidOperation
        else
          let coeff = rescale s c e e' mode in
          if adjusted coeff e' > Emax then Inl InvalidOperation
          else if ndigits coeff > prec then Inl InvalidOperation
          else dec_fix s coeff e')"
| "quantize (Infinity s) (Infinity s') mode = Inr (Infinity s)"
| "quantize (Infinity s) (Finite s' c' e') mode = Inl InvalidOperation"
| "quantize (Finite s c e) (Infinity s') mode = Inl InvalidOperation"
| "quantize a b mode = nan_result a b"

text \<open>
  Comparison with zero, as in \<^verbatim>\<open>val < 0\<close> and \<^verbatim>\<open>val <= 0\<close>: an ordering comparison
  with a NaN raises \<^verbatim>\<open>InvalidOperation\<close>.
\<close>

fun dec_lt_zero :: "decimal \<Rightarrow> exn + bool" where
  "dec_lt_zero (Finite s c e) = Inr (s \<and> c \<noteq> 0)"
| "dec_lt_zero (Infinity s) = Inr s"
| "dec_lt_zero (NaN s sig p) = Inl InvalidOperation"

fun dec_le_zero :: "decimal \<Rightarrow> exn + bool" where
  "dec_le_zero (Finite s c e) = Inr (s \<or> c = 0)"
| "dec_le_zero (Infinity s) = Inr s"
| "dec_le_zero (NaN s sig p) = Inl InvalidOperation"

text \<open>A rate the specification allows: strictly positive.\<close>

fun dec_positive :: "decimal \<Rightarrow> bool" where
  "dec_positive (Finite s c e) = (\<not> s \<and> 0 < c)"
| "dec_positive (Infinity s) = (\<not> s)"
| "dec_positive (NaN s sig p) = False"

subsection \<open>\<^verbatim>\<open>float\<close>\<close>

text \<open>
  A \<^verbatim>\<open>float\<close> is the 64 bits of an IEEE 754 double: the sign, 11 bits of biased exponent
  and 52 bits of fraction. \<open>float_parts\<close> reads them: \<open>FNum s m e\<close> is the number
  \<open>(-1)^s * m * 2^e\<close>.
\<close>

datatype float_parts = FNum bool nat int | FInf bool | FNaN bool

definition float_parts :: "64 word \<Rightarrow> float_parts" where
  "float_parts w =
     (let n = unat w;
          s = (2 ^ 63 \<le> n);
          b = n div 2 ^ 52 mod 2048;
          f = n mod 2 ^ 52
      in if b = 2047 then (if f = 0 then FInf s else FNaN s)
         else if b = 0 then FNum s f (- 1074)
         else FNum s (2 ^ 52 + f) (int b - 1075))"

definition float_bits :: "bool \<Rightarrow> nat \<Rightarrow> nat \<Rightarrow> 64 word" where
  "float_bits s b f = of_nat ((if s then 2 ^ 63 else 0) + b * 2 ^ 52 + f)"

fun bitlen :: "nat \<Rightarrow> nat" where
  "bitlen n = (if n = 0 then 0 else Suc (bitlen (n div 2)))"

declare bitlen.simps [simp del]

text \<open>The quotient of two natural numbers rounded to the nearest integer, a tie to the even one.\<close>

definition div_half_even :: "nat \<Rightarrow> nat \<Rightarrow> nat" where
  "div_half_even p q =
     (let n = p div q; r = p mod q
      in if q < 2 * r \<or> (2 * r = q \<and> odd n) then n + 1 else n)"

text \<open>
  The double nearest to \<open>(-1)^s * p / q\<close>, a tie to the even fraction, infinite from
  \<open>2^1024\<close> on: the result of an operation whose exact value is \<open>p / q\<close>, and of reading
  a decimal numeral.
\<close>

definition nearest_float :: "bool \<Rightarrow> nat \<Rightarrow> nat \<Rightarrow> 64 word" where
  "nearest_float s p q =
     (if p = 0 then float_bits s 0 0
      else
        (let k = int (bitlen p) - int (bitlen q);
             lg = (if (if 0 \<le> k then q * 2 ^ nat k \<le> p else q \<le> p * 2 ^ nat (- k))
                   then k else k - 1);
             e = max (lg - 52) (- 1074);
             n = (if 0 \<le> e then div_half_even p (q * 2 ^ nat e)
                  else div_half_even (p * 2 ^ nat (- e)) q)
         in if n < 2 ^ 52 then float_bits s 0 n
            else if n = 2 ^ 53 then
              (if 971 \<le> e then float_bits s 2047 0 else float_bits s (nat (e + 1076)) 0)
            else if 971 < e then float_bits s 2047 0
            else float_bits s (nat (e + 1075)) (n - 2 ^ 52)))"

text \<open>\<^verbatim>\<open>bool(x)\<close>, \<^verbatim>\<open>x >= m\<close> and \<^verbatim>\<open>x > 0\<close> for a float \<open>x\<close> and an integer \<open>m\<close>.\<close>

definition float_nonzero :: "64 word \<Rightarrow> bool" where
  "float_nonzero w = (case float_parts w of FNum s m e \<Rightarrow> m \<noteq> 0 | _ \<Rightarrow> True)"

definition float_ge_int :: "64 word \<Rightarrow> int \<Rightarrow> bool" where
  "float_ge_int w m =
     (case float_parts w of
        FNum s c e \<Rightarrow>
          (let sc = (if s then - int c else int c) in
           if 0 \<le> e then m \<le> sc * 2 ^ nat e else m * 2 ^ nat (- e) \<le> sc)
      | FInf s \<Rightarrow> \<not> s
      | FNaN s \<Rightarrow> False)"

definition float_positive :: "64 word \<Rightarrow> bool" where
  "float_positive w =
     (case float_parts w of
        FNum s m e \<Rightarrow> \<not> s \<and> m \<noteq> 0
      | FInf s \<Rightarrow> \<not> s
      | FNaN s \<Rightarrow> False)"

text \<open>\<^verbatim>\<open>int(x)\<close>: the float is truncated towards zero.\<close>

definition trunc_float :: "64 word \<Rightarrow> exn + int" where
  "trunc_float w =
     (case float_parts w of
        FNum s c e \<Rightarrow>
          (let m = (if 0 \<le> e then int c * 2 ^ nat e else int c div 2 ^ nat (- e))
           in Inr (if s then - m else m))
      | FInf s \<Rightarrow> Inl OverflowError
      | FNaN s \<Rightarrow> Inl ValueError)"

text \<open>
  \<^verbatim>\<open>2 - x\<close>: the integer is converted to the float \<open>2.0\<close> and the exact difference is
  rounded. The difference with a NaN is that NaN.
\<close>

definition two_minus_float :: "64 word \<Rightarrow> 64 word" where
  "two_minus_float w =
     (case float_parts w of
        FNum s m e \<Rightarrow>
          (let q = (if e < 0 then 2 ^ nat (- e) else 1);
               p = (if e < 0 then int m else int m * 2 ^ nat e);
               d = 2 * int q - (if s then - p else p)
           in nearest_float (d < 0) (nat \<bar>d\<bar>) q)
      | FInf s \<Rightarrow> float_bits (\<not> s) 2047 0
      | FNaN s \<Rightarrow> w)"

text \<open>
  \<^verbatim>\<open>Decimal(x)\<close> for a float is exact: with \<open>\<bar>x\<bar> = n / 2^k\<close> in lowest terms it is
  \<open>n * 5^k\<close> with the exponent \<open>-k\<close>.
\<close>

fun lowest_terms :: "nat \<Rightarrow> nat \<Rightarrow> nat \<times> nat" where
  "lowest_terms m k =
     (if k = 0 \<or> m = 0 \<or> odd m then (m, k) else lowest_terms (m div 2) (k - 1))"

declare lowest_terms.simps [simp del]

definition Decimal_of_float :: "64 word \<Rightarrow> decimal" where
  "Decimal_of_float w =
     (case float_parts w of
        FNum s m e \<Rightarrow>
          (if m = 0 then Finite s 0 0
           else if 0 \<le> e then Finite s (m * 2 ^ nat e) 0
           else (case lowest_terms m (nat (- e)) of (n, k) \<Rightarrow> Finite s (n * 5 ^ k) (- int k)))
      | FInf s \<Rightarrow> Infinity s
      | FNaN s \<Rightarrow> NaN s False 0)"

text \<open>
  \<^verbatim>\<open>str(x)\<close> and \<^verbatim>\<open>repr(x)\<close> of a float: the shortest string of digits that reads back
  as the same float, and the nearest to it among the shortest, a tie to the even digit.
  \<open>digits_at w p q d n\<close> tries \<open>n\<close> digits for the float \<open>w = p / q\<close> whose first digit has
  the exponent \<open>d\<close>: the candidates are the \<open>n\<close> digits below and the next above.
\<close>

definition read_digits :: "nat \<Rightarrow> int \<Rightarrow> 64 word" where
  "read_digits c x =
     (if 0 \<le> x then nearest_float False (c * 10 ^ nat x) 1
      else nearest_float False c (10 ^ nat (- x)))"

definition digits_at :: "64 word \<Rightarrow> nat \<Rightarrow> nat \<Rightarrow> int \<Rightarrow> nat \<Rightarrow> (nat \<times> int) option" where
  "digits_at w p q d n =
     (let x = d - int n + 1;
          num = (if x < 0 then p * 10 ^ nat (- x) else p);
          den = (if x < 0 then q else q * 10 ^ nat x);
          lo = num div den;
          r = num mod den;
          lo_ok = (read_digits lo x = w);
          hi_ok = (read_digits (lo + 1) x = w)
      in if lo_ok \<and> hi_ok
         then Some (if den < 2 * r \<or> (2 * r = den \<and> odd lo) then lo + 1 else lo, x)
         else if lo_ok then Some (lo, x)
         else if hi_ok then Some (lo + 1, x)
         else None)"

fun first_digits :: "(nat \<Rightarrow> (nat \<times> int) option) \<Rightarrow> nat list \<Rightarrow> (nat \<times> int) option" where
  "first_digits f [] = None"
| "first_digits f (n # ns) = (case f n of Some r \<Rightarrow> Some r | None \<Rightarrow> first_digits f ns)"

text \<open>The shortest digits of the positive float \<open>m * 2^e\<close>, without zeros at the end.\<close>

function drop_zeros :: "nat \<Rightarrow> int \<Rightarrow> nat \<times> int" where
  "drop_zeros c x = (if c \<noteq> 0 \<and> c mod 10 = 0 then drop_zeros (c div 10) (x + 1) else (c, x))"
  by pat_completeness auto
termination
  by (relation "measure (\<lambda>(c, x). c)") auto

declare drop_zeros.simps [simp del]

definition shortest_digits :: "nat \<Rightarrow> int \<Rightarrow> nat \<times> int" where
  "shortest_digits m e =
     (let p = (if e < 0 then m else m * 2 ^ nat e);
          q = (if e < 0 then 2 ^ nat (- e) else 1);
          w = nearest_float False p q;
          k = int (ndigits p) - int (ndigits q);
          d = (if (if 0 \<le> k then q * 10 ^ nat k \<le> p else q \<le> p * 10 ^ nat (- k))
               then k else k - 1)
      in case first_digits (digits_at w p q d) [1..<18] of
           Some (c, x) \<Rightarrow> drop_zeros c x
         | None \<Rightarrow> drop_zeros (div_half_even (p * 10 ^ nat (16 - d)) (q * 10 ^ nat (d - 16))) (d - 16))"

text \<open>
  The text: the digits with a point and at least one digit after it when the point lies
  within 16 digits to the right and 4 zeros to the left of the first digit, else one
  digit before the point and an exponent of at least two digits.
\<close>

definition float_exponent :: "int \<Rightarrow> string" where
  "float_exponent n =
     (if n < 0 then ''-'' else ''+'') @ (if \<bar>n\<bar> < 10 then ''0'' else '''') @ digits_of (nat \<bar>n\<bar>)"

definition float_repr :: "64 word \<Rightarrow> string" where
  "float_repr w =
     (case float_parts w of
        FNaN s \<Rightarrow> ''nan''
      | FInf s \<Rightarrow> (if s then ''-inf'' else ''inf'')
      | FNum s m e \<Rightarrow>
          (if s then ''-'' else '''') @
          (if m = 0 then ''0.0''
           else
             (case shortest_digits m e of (c, x) \<Rightarrow>
                (let ds = digits_of c;
                     n = int (length ds);
                     decpt = n + x
                 in if decpt \<le> - 4 \<or> 16 < decpt
                    then take 1 ds @ (if 1 < n then ''.'' @ drop 1 ds else '''') @
                         ''e'' @ float_exponent (decpt - 1)
                    else if decpt \<le> 0
                      then ''0.'' @ replicate (nat (- decpt)) CHR ''0'' @ ds
                    else if n \<le> decpt
                      then ds @ replicate (nat (decpt - n)) CHR ''0'' @ ''.0''
                    else take (nat decpt) ds @ ''.'' @ drop (nat decpt) ds))))"

subsection \<open>Values loaded from JSON\<close>

text \<open>
  What \<^verbatim>\<open>json.load\<close> returns: \<^verbatim>\<open>None\<close>, a \<^verbatim>\<open>bool\<close>, an \<^verbatim>\<open>int\<close>, a \<^verbatim>\<open>float\<close>, a
  \<^verbatim>\<open>str\<close>, a \<^verbatim>\<open>list\<close> or a \<^verbatim>\<open>dict\<close> with string keys (a list of pairs with distinct
  keys, in insertion order); \<open>PDec\<close> is a \<^verbatim>\<open>Decimal\<close>, which \<^verbatim>\<open>json.loads\<close> with
  \<^verbatim>\<open>parse_float=Decimal\<close> returns for a number with a fraction or an exponent.
\<close>

datatype pyval =
    PNone | PBool bool | PInt int | PFloat "64 word" | PDec decimal | PStr string
  | PList "pyval list" | PDict "(string \<times> pyval) list"

fun nonzero :: "decimal \<Rightarrow> bool" where
  "nonzero (Finite s c e) = (c \<noteq> 0)"
| "nonzero d = True"

text \<open>Truth value of an object, as in \<^verbatim>\<open>if not cache\<close> and \<^verbatim>\<open>_load_cache() or {}\<close>.\<close>

fun truthy :: "pyval \<Rightarrow> bool" where
  "truthy PNone = False"
| "truthy (PBool b) = b"
| "truthy (PInt n) = (n \<noteq> 0)"
| "truthy (PFloat x) = float_nonzero x"
| "truthy (PDec d) = nonzero d"
| "truthy (PStr s) = (s \<noteq> [])"
| "truthy (PList xs) = (xs \<noteq> [])"
| "truthy (PDict kvs) = (kvs \<noteq> [])"

text \<open>\<^verbatim>\<open>obj.get(key, default)\<close>: only a \<^verbatim>\<open>dict\<close> has the method.\<close>

fun py_get :: "pyval \<Rightarrow> string \<Rightarrow> pyval \<Rightarrow> exn + pyval" where
  "py_get (PDict kvs) k dflt = Inr (case map_of kvs k of Some v \<Rightarrow> v | None \<Rightarrow> dflt)"
| "py_get v k dflt = Inl AttributeError"

text \<open>
  \<^verbatim>\<open>Decimal(str(value))\<close>. The text of \<^verbatim>\<open>None\<close>, of a \<^verbatim>\<open>bool\<close>, of a list and of a
  dict (\<^verbatim>\<open>None\<close>, \<^verbatim>\<open>True\<close>, \<^verbatim>\<open>[...]\<close>, \<^verbatim>\<open>{...}\<close>) is never a number.
\<close>

fun Decimal_of_str :: "pyval \<Rightarrow> exn + decimal" where
  "Decimal_of_str (PStr s) = Decimal_of_string s"
| "Decimal_of_str (PInt n) = Inr (Decimal_of_int n)"
| "Decimal_of_str (PFloat x) = Decimal_of_string (float_repr x)"
| "Decimal_of_str (PDec d) = Inr d"
| "Decimal_of_str v = Inl InvalidOperation"

text \<open>The comparison \<^verbatim>\<open>value >= m\<close> with an integer \<open>m\<close>.\<close>

fun dec_ge_int :: "decimal \<Rightarrow> int \<Rightarrow> bool" where
  "dec_ge_int (Finite s c e) m =
     (let sc = (if s then - int c else int c) in
      if 0 \<le> e then m \<le> sc * 10 ^ nat e else m * 10 ^ nat (- e) \<le> sc)"
| "dec_ge_int (Infinity s) m = (\<not> s)"
| "dec_ge_int (NaN s sig p) m = False"

fun py_ge :: "pyval \<Rightarrow> int \<Rightarrow> exn + bool" where
  "py_ge (PInt n) m = Inr (m \<le> n)"
| "py_ge (PBool b) m = Inr (m \<le> (if b then 1 else 0))"
| "py_ge (PFloat x) m = Inr (float_ge_int x m)"
| "py_ge (PDec d) m = (case d of NaN s sig p \<Rightarrow> Inl InvalidOperation | _ \<Rightarrow> Inr (dec_ge_int d m))"
| "py_ge v m = Inl TypeError"

text \<open>
  \<^verbatim>\<open>int(text)\<close>: stripped text, an optional sign, digits with single underscores
  between them.
\<close>

fun grouped_digits :: "string \<Rightarrow> bool" where
  "grouped_digits [] = False"
| "grouped_digits [c] = is_digit c"
| "grouped_digits (c # d # r) =
     (is_digit c \<and> (if d = CHR ''_'' then grouped_digits r else grouped_digits (d # r)))"

definition int_of_string :: "string \<Rightarrow> exn + int" where
  "int_of_string text =
     (let (neg, body) = split_sign (strip text) in
      if grouped_digits body
      then (let n = int (nat_of_digits (filter (\<lambda>c. c \<noteq> CHR ''_'') body))
            in Inr (if neg then - n else n))
      else Inl ValueError)"

text \<open>\<^verbatim>\<open>int(value)\<close>: a \<^verbatim>\<open>Decimal\<close> is truncated towards zero, as a float is.\<close>

fun trunc_dec :: "decimal \<Rightarrow> exn + int" where
  "trunc_dec (Finite s c e) =
     (let m = (if 0 \<le> e then int c * 10 ^ nat e else int c div 10 ^ nat (- e))
      in Inr (if s then - m else m))"
| "trunc_dec (Infinity s) = Inl OverflowError"
| "trunc_dec (NaN s sig p) = Inl ValueError"

fun py_int :: "pyval \<Rightarrow> exn + int" where
  "py_int (PInt n) = Inr n"
| "py_int (PBool b) = Inr (if b then 1 else 0)"
| "py_int (PFloat x) = trunc_float x"
| "py_int (PDec d) = trunc_dec d"
| "py_int (PStr s) = int_of_string s"
| "py_int v = Inl TypeError"

text \<open>\<^verbatim>\<open>max(0, 2 - value)\<close>, the expression of line 83.\<close>

fun max0_two_minus :: "pyval \<Rightarrow> exn + pyval" where
  "max0_two_minus (PInt n) = Inr (PInt (max 0 (2 - n)))"
| "max0_two_minus (PBool b) = Inr (PInt (max 0 (2 - (if b then 1 else 0))))"
| "max0_two_minus (PFloat x) =
     (let r = two_minus_float x in Inr (if float_positive r then PFloat r else PInt 0))"
| "max0_two_minus v = Inl TypeError"

section \<open>The program\<close>

subsection \<open>State\<close>

text \<open>
  The module's state is the global \<^verbatim>\<open>RATES\<close> dictionary and the cache file
  \<^verbatim>\<open>.rates_cache.json\<close>. The file is missing, unreadable (it exists but opening or
  \<^verbatim>\<open>json.load\<close> raises) or holds a JSON document. \<open>requests\<close> counts the calls of
  \<^verbatim>\<open>urlopen\<close>, \<open>printed\<close> is what was written to the terminal.
\<close>

datatype file_state = Missing | Unreadable | Json pyval

datatype msg =
    LimitReached          \<comment> \<open>\<^verbatim>\<open>Has alcanzado el limite de 2 actualizaciones hoy.\<close>\<close>
  | ConnectError          \<comment> \<open>\<^verbatim>\<open>No se pudo conectar a la API: ...\<close>\<close>
  | FetchError            \<comment> \<open>\<^verbatim>\<open>Error al obtener tasas: ...\<close>\<close>
  | RatesUpdated nat      \<comment> \<open>\<^verbatim>\<open>Tasas actualizadas desde la API. Monedas actualizadas: n\<close>\<close>
  | RemainingToday int    \<comment> \<open>\<^verbatim>\<open>Restantes hoy: n\<close>\<close>
  | AutoUpdate            \<comment> \<open>\<^verbatim>\<open>Intentando actualizacion automatica desde la API...\<close>\<close>
  | MustBePositive        \<comment> \<open>\<^verbatim>\<open>La tasa debe ser mayor que 0.\<close>\<close>
  | InvalidValue          \<comment> \<open>\<^verbatim>\<open>Valor invalido. Intenta de nuevo (ej: 3.75)\<close>\<close>
  | RateSet string decimal \<comment> \<open>\<^verbatim>\<open>Tasa actualizada: 1 USD = val code\<close>\<close>

record world =
  RATES :: "(string \<times> decimal) list"
  cache_file :: file_state
  requests :: nat
  printed :: "msg list"

text \<open>
  What the program reads from outside: the local date (\<^verbatim>\<open>date.today().isoformat()\<close>),
  the UTC time (\<^verbatim>\<open>datetime.utcnow().isoformat(timespec="seconds")\<close>), the outcome of the
  HTTP request and of the write to the cache file.
\<close>

datatype http_result =
    ConnectionFailed      \<comment> \<open>\<^verbatim>\<open>urlopen\<close> raises \<^verbatim>\<open>URLError\<close> or \<^verbatim>\<open>HTTPError\<close>\<close>
  | TransferFailed        \<comment> \<open>any other exception up to and including \<^verbatim>\<open>json.loads\<close>\<close>
  | Body pyval            \<comment> \<open>the parsed response\<close>

datatype write_result =
    Written               \<comment> \<open>\<^verbatim>\<open>json.dump\<close> completes\<close>
  | OpenFailed            \<comment> \<open>the file cannot be opened for writing\<close>
  | WriteInterrupted      \<comment> \<open>the file was truncated and the write failed\<close>

record env =
  today :: string
  utcnow :: string
  http :: http_result
  disk :: write_result

definition SUPPORTED :: "string list" where
  "SUPPORTED =
     [''USD'', ''EUR'', ''MXN'', ''ARS'', ''COP'', ''CLP'', ''PEN'',
      ''GBP'', ''JPY'', ''BRL'', ''CAD'']"

text \<open>The default rates of lines 20 to 32.\<close>

definition default_rates :: "(string \<times> decimal) list" where
  "default_rates =
     [(''USD'', Finite False 1 0),
      (''EUR'', Finite False 92 (- 2)),
      (''MXN'', Finite False 198 (- 1)),
      (''ARS'', Finite False 980 0),
      (''COP'', Finite False 3940 0),
      (''CLP'', Finite False 910 0),
      (''PEN'', Finite False 375 (- 2)),
      (''GBP'', Finite False 78 (- 2)),
      (''JPY'', Finite False 1465 (- 1)),
      (''BRL'', Finite False 51 (- 1)),
      (''CAD'', Finite False 136 (- 2))]"

subsection \<open>\<^verbatim>\<open>_load_cache\<close> and \<^verbatim>\<open>_save_cache\<close>\<close>

definition load_cache :: "world \<Rightarrow> pyval" where
  "load_cache w =
     (case cache_file w of
        Missing \<Rightarrow> PNone
      | Unreadable \<Rightarrow> PNone
      | Json v \<Rightarrow> v)"

definition save_cache :: "write_result \<Rightarrow> pyval \<Rightarrow> world \<Rightarrow> world" where
  "save_cache r data w =
     (case r of
        Written \<Rightarrow> w\<lparr>cache_file := Json data\<rparr>
      | OpenFailed \<Rightarrow> w
      | WriteInterrupted \<Rightarrow> w\<lparr>cache_file := Unreadable\<rparr>)"

subsection \<open>\<^verbatim>\<open>_apply_cached_rates\<close>\<close>

text \<open>
  One round of the loop of lines 68 to 74: the entry is stored when the code is
  supported and \<^verbatim>\<open>Decimal(str(value))\<close> does not raise.
\<close>

definition apply_entry ::
  "string \<times> pyval \<Rightarrow> (string \<times> decimal) list \<times> int \<Rightarrow> (string \<times> decimal) list \<times> int" where
  "apply_entry kv acc =
     (case kv of (code, v) \<Rightarrow>
      case acc of (R, updated) \<Rightarrow>
        if code \<in> set SUPPORTED then
          (case Decimal_of_str v of
             Inl ex \<Rightarrow> (R, updated)
           | Inr d \<Rightarrow> (AList.update code d R, updated + 1))
        else (R, updated))"

definition apply_cached_rates :: "world \<Rightarrow> (exn + pyval) \<times> world" where
  "apply_cached_rates w =
     (let cache = load_cache w in
      if \<not> truthy cache then (Inr PNone, w)
      else
        (case py_get cache ''rates'' PNone of
           Inl ex \<Rightarrow> (Inl ex, w)
         | Inr rates \<Rightarrow>
             (case rates of
                PDict items \<Rightarrow>
                  (case fold apply_entry items (RATES w, 0) of
                     (R, updated) \<Rightarrow> (Inr (PInt updated), w\<lparr>RATES := R\<rparr>))
              | other \<Rightarrow> (Inr PNone, w))))"

subsection \<open>\<^verbatim>\<open>listar_monedas\<close>: the remaining updates of the day\<close>

text \<open>Lines 79 to 83: the value of \<^verbatim>\<open>remaining\<close>.\<close>

definition or_empty :: "pyval \<Rightarrow> pyval" where
  "or_empty v = (if truthy v then v else PDict [])"

definition remaining_today :: "world \<Rightarrow> string \<Rightarrow> exn + pyval" where
  "remaining_today w tod =
     (let cache = or_empty (load_cache w) in
      case py_get cache ''last_updated'' PNone of
        Inl ex \<Rightarrow> Inl ex
      | Inr last_updated \<Rightarrow>
          (case py_get cache ''day'' PNone of
             Inl ex \<Rightarrow> Inl ex
           | Inr day \<Rightarrow>
               (case py_get cache ''fetch_count'' (PInt 0) of
                  Inl ex \<Rightarrow> Inl ex
                | Inr fetch_count \<Rightarrow>
                    if day = PStr tod then max0_two_minus fetch_count else Inr (PInt 2))))"

subsection \<open>\<^verbatim>\<open>convertir\<close> and \<^verbatim>\<open>formatea\<close>\<close>

definition lookup :: "(string \<times> decimal) list \<Rightarrow> string \<Rightarrow> exn + decimal" where
  "lookup R code = (case map_of R code of None \<Rightarrow> Inl KeyError | Some d \<Rightarrow> Inr d)"

definition convertir :: "world \<Rightarrow> decimal \<Rightarrow> string \<Rightarrow> string \<Rightarrow> (exn + decimal) \<times> world" where
  "convertir w monto desde hacia =
     (if desde = hacia then (Inr monto, w)
      else
        (case lookup (RATES w) desde of
           Inl ex \<Rightarrow> (Inl ex, w)
         | Inr rd \<Rightarrow>
             (case dec_div monto rd of
                Inl ex \<Rightarrow> (Inl ex, w)
              | Inr usd \<Rightarrow>
                  (case lookup (RATES w) hacia of
                     Inl ex \<Rightarrow> (Inl ex, w)
                   | Inr rh \<Rightarrow> (dec_mul usd rh, w)))))"

definition formatea :: "world \<Rightarrow> decimal \<Rightarrow> string \<Rightarrow> (exn + string) \<times> world" where
  "formatea w valor code =
     (case quantize valor (Finite False 1 (- 2)) ROUND_HALF_UP of
        Inl ex \<Rightarrow> (Inl ex, w)
      | Inr d \<Rightarrow> (Inr (str_Decimal d @ '' '' @ code), w))"

subsection \<open>\<^verbatim>\<open>_fetch_rates_from_api\<close>\<close>

text \<open>
  Lines 153 to 161: the \<^verbatim>\<open>Decimal\<close> of one value of the response, or \<open>None\<close> when the
  loop skips it.
\<close>

fun rate_of_value :: "pyval \<Rightarrow> decimal option" where
  "rate_of_value (PInt n) = Some (Decimal_of_int n)"
| "rate_of_value (PBool b) = Some (Decimal_of_int (if b then 1 else 0))"
| "rate_of_value (PFloat x) = Some (Decimal_of_float x)"
| "rate_of_value (PDec d) = Some d"
| "rate_of_value v = (case Decimal_of_str v of Inl ex \<Rightarrow> None | Inr d \<Rightarrow> Some d)"

definition collect_rate ::
  "string \<times> pyval \<Rightarrow> (string \<times> decimal) list \<Rightarrow> (string \<times> decimal) list" where
  "collect_rate kv out =
     (case kv of (code, v) \<Rightarrow>
      case rate_of_value v of None \<Rightarrow> out | Some d \<Rightarrow> AList.update code d out)"

definition fetch_rates_from_api :: "http_result \<Rightarrow> exn + (string \<times> decimal) list" where
  "fetch_rates_from_api r =
     (case r of
        ConnectionFailed \<Rightarrow> Inl URLError
      | TransferFailed \<Rightarrow> Inl OtherException
      | Body data \<Rightarrow>
          (case data of
             PDict kvs \<Rightarrow>
               (case map_of kvs ''rates'' of
                  None \<Rightarrow> Inl RuntimeError
                | Some rates \<Rightarrow>
                    (case rates of
                       PDict items \<Rightarrow>
                         Inr (fold collect_rate items [(''USD'', Finite False 1 0)])
                     | other \<Rightarrow> Inl AttributeError))
           | other \<Rightarrow> Inl RuntimeError))"

subsection \<open>\<^verbatim>\<open>actualizar_tasas_api\<close>\<close>

text \<open>Line 172: the test of the daily limit.\<close>

definition limit_reached :: "pyval \<Rightarrow> string \<Rightarrow> int \<Rightarrow> exn + bool" where
  "limit_reached cache tod max_updates_per_day =
     (case py_get cache ''day'' PNone of
        Inl ex \<Rightarrow> Inl ex
      | Inr day \<Rightarrow>
          if day = PStr tod then
            (case py_get cache ''fetch_count'' (PInt 0) of
               Inl ex \<Rightarrow> Inl ex
             | Inr fetch_count \<Rightarrow> py_ge fetch_count max_updates_per_day)
          else Inr False)"

text \<open>Lines 191 to 193: \<^verbatim>\<open>new_count\<close>.\<close>

definition new_count :: "pyval \<Rightarrow> string \<Rightarrow> exn + int" where
  "new_count cache tod =
     (case py_get cache ''day'' PNone of
        Inl ex \<Rightarrow> Inl ex
      | Inr day \<Rightarrow>
          if day = PStr tod then
            (case py_get cache ''fetch_count'' (PInt 0) of
               Inl ex \<Rightarrow> Inl ex
             | Inr fetch_count \<Rightarrow>
                 (case py_int fetch_count of Inl ex \<Rightarrow> Inl ex | Inr n \<Rightarrow> Inr (n + 1)))
          else Inr 1)"

text \<open>Lines 185 to 189: the supported codes of the response are stored.\<close>

definition store_rate ::
  "(string \<times> decimal) list \<Rightarrow> string \<Rightarrow> (string \<times> decimal) list \<times> nat
     \<Rightarrow> (string \<times> decimal) list \<times> nat" where
  "store_rate all_rates code acc =
     (case acc of (R, updated) \<Rightarrow>
      case map_of all_rates code of
        None \<Rightarrow> (R, updated)
      | Some d \<Rightarrow> (AList.update code d R, updated + 1))"

text \<open>Lines 194 to 199: the record that is written.\<close>

definition cache_data :: "env \<Rightarrow> int \<Rightarrow> (string \<times> decimal) list \<Rightarrow> pyval" where
  "cache_data ev count R =
     PDict
       [(''last_updated'', PStr (utcnow ev @ ''Z'')),
        (''day'', PStr (today ev)),
        (''fetch_count'', PInt count),
        (''rates'', PDict (map (\<lambda>kv. (fst kv, PStr (str_Decimal (snd kv)))) R))]"

definition actualizar_tasas_api :: "int \<Rightarrow> env \<Rightarrow> world \<Rightarrow> (exn + bool) \<times> world" where
  "actualizar_tasas_api max_updates_per_day ev w =
     (let cache = or_empty (load_cache w) in
      case limit_reached cache (today ev) max_updates_per_day of
        Inl ex \<Rightarrow> (Inl ex, w)
      | Inr reached \<Rightarrow>
          if reached then (Inr False, w\<lparr>printed := printed w @ [LimitReached]\<rparr>)
          else
            (let w1 = w\<lparr>requests := requests w + 1\<rparr> in
             case fetch_rates_from_api (http ev) of
               Inl ex \<Rightarrow>
                 (Inr False,
                  w1\<lparr>printed := printed w1 @ [if ex = URLError then ConnectError else FetchError]\<rparr>)
             | Inr all_rates \<Rightarrow>
                 (case fold (store_rate all_rates) SUPPORTED (RATES w1, 0) of
                    (R, updated) \<Rightarrow>
                      (let w2 = w1\<lparr>RATES := R\<rparr> in
                       case new_count cache (today ev) of
                         Inl ex \<Rightarrow> (Inl ex, w2)
                       | Inr count \<Rightarrow>
                           (let w3 = save_cache (disk ev) (cache_data ev count R) w2 in
                            (Inr True,
                             w3\<lparr>printed := printed w3 @
                                  [RatesUpdated updated,
                                   RemainingToday (max 0 (max_updates_per_day - count))]\<rparr>))))))"

subsection \<open>\<^verbatim>\<open>actualizar_tasa\<close>: the manual override\<close>

text \<open>
  The loop of lines 210 to 223, for a currency code already read, over the lines the
  user types (\<^verbatim>\<open>input\<close> raises \<^verbatim>\<open>EOFError\<close> when there is none left). A value that is not
  a number, or a NaN (whose comparison raises \<^verbatim>\<open>InvalidOperation\<close>), and a value that is
  not greater than 0 are asked again.
\<close>

fun actualizar_tasa_loop :: "string \<Rightarrow> string list \<Rightarrow> world \<Rightarrow> (exn + unit) \<times> world" where
  "actualizar_tasa_loop code [] w = (Inl EOFError, w)"
| "actualizar_tasa_loop code (line # rest) w =
     (let raw = map (\<lambda>c. if c = CHR '','' then CHR ''.'' else c) (strip line) in
      case Decimal_of_string raw of
        Inl ex \<Rightarrow> actualizar_tasa_loop code rest (w\<lparr>printed := printed w @ [InvalidValue]\<rparr>)
      | Inr val \<Rightarrow>
          (case dec_le_zero val of
             Inl ex \<Rightarrow> actualizar_tasa_loop code rest (w\<lparr>printed := printed w @ [InvalidValue]\<rparr>)
           | Inr nonpositive \<Rightarrow>
               if nonpositive
               then actualizar_tasa_loop code rest (w\<lparr>printed := printed w @ [MustBePositive]\<rparr>)
               else (Inr (),
                     w\<lparr>RATES := AList.update code val (RATES w),
                       printed := printed w @ [RateSet code val]\<rparr>)))"

subsection \<open>The state at program start\<close>

text \<open>The default rates, a given cache file, nothing requested or printed yet.\<close>

definition initial_world :: "file_state \<Rightarrow> world" where
  "initial_world f = \<lparr>RATES = default_rates, cache_file = f, requests = 0, printed = []\<rparr>"

subsection \<open>Rounding to cents, as the specification words it\<close>

text \<open>
  The magnitude of a value in cents, rounded half up (a tie goes away from zero), and the
  text of an amount of \<open>n\<close> cents with sign \<open>s\<close>: the units, a point and exactly two
  digits.
\<close>

definition half_up_cents :: "real \<Rightarrow> nat" where
  "half_up_cents v = nat \<lfloor>\<bar>v\<bar> * 100 + 1 / 2\<rfloor>"

definition two_decimals :: "bool \<Rightarrow> nat \<Rightarrow> string" where
  "two_decimals s n =
     (if s then ''-'' else '''') @ digits_of (n div 100) @ ''.'' @
     [digit_char (n div 10 mod 10), digit_char (n mod 10)]"

subsection \<open>Ranges of magnitudes\<close>

text \<open>
  The accuracy of a conversion is stated for operands whose magnitude lies between two powers
  of ten, well inside the exponent range of the context.
\<close>

definition between_powers :: "int \<Rightarrow> int \<Rightarrow> real \<Rightarrow> bool" where
  "between_powers a b x \<longleftrightarrow> 10 powi a \<le> x \<and> x < 10 powi b"

section \<open>Properties\<close>

subsection \<open>Evaluation of concrete inputs\<close>

lemmas parse_defs = Decimal_of_string_def strip_def is_space_def split_sign_def parse_number_def
  parse_special_def parse_exponent_def is_digit_def nat_of_digits_def digit_val_def lower_def
  Decimal_of_int_def adjusted_def ndigits.simps

lemmas state_defs = load_cache_def initial_world_def apply_cached_rates_def apply_entry_def
  SUPPORTED_def default_rates_def or_empty_def limit_reached_def new_count_def

lemmas arith_defs = div_coeff_def ndigits.simps dec_fix_def round_coeff_def prec_def Etop_def
  Etiny_def Emax_def Emin_def strip_zeros.simps Let_def rescale_def

lemmas str_defs = str_Decimal_def digits_of.simps digit_char_def signed_exponent_def

subsection \<open>The daily limit\<close>

text \<open>
  C1. Let the cache file hold a record whose \<^verbatim>\<open>fetch_count\<close> is the integer \<open>n\<close>. If its
  \<^verbatim>\<open>day\<close> is today, the remaining updates are \<open>max 0 (2 - n)\<close>, they are 0 exactly when
  \<open>2 \<le> n\<close>, and then \<^verbatim>\<open>actualizar_tasas_api\<close> returns \<^verbatim>\<open>False\<close> and only prints the message
  of the limit: no request is made, the rate table and the cache file are as before. If
  its \<^verbatim>\<open>day\<close> is any other value, the remaining updates are 2.
\<close>

theorem quota_exceeded_no_fetch:
  assumes "load_cache w = PDict kvs"
    and "map_of kvs ''fetch_count'' = Some (PInt n)"
  shows "(map_of kvs ''day'' = Some (PStr (today ev)) \<longrightarrow>
            remaining_today w (today ev) = Inr (PInt (max 0 (2 - n))) \<and>
            (remaining_today w (today ev) = Inr (PInt 0) \<longleftrightarrow> 2 \<le> n) \<and>
            (2 \<le> n \<longrightarrow>
               actualizar_tasas_api 2 ev w =
                 (Inr False, w\<lparr>printed := printed w @ [LimitReached]\<rparr>))) \<and>
         (map_of kvs ''day'' \<noteq> Some (PStr (today ev)) \<longrightarrow>
            remaining_today w (today ev) = Inr (PInt 2))"
proof -
  from assms(2) have "kvs \<noteq> []" by auto
  then have cache: "or_empty (load_cache w) = PDict kvs"
    by (simp add: or_empty_def assms(1))
  show ?thesis
    using assms(2)
    by (auto simp: remaining_today_def actualizar_tasas_api_def limit_reached_def cache
        split: option.splits)
qed

theorem quota_exceeded_no_fetch_witness:
  "load_cache (initial_world (Json (PDict [(''day'', PStr ''2025-01-02''), (''fetch_count'', PInt 2)])))
     = PDict [(''day'', PStr ''2025-01-02''), (''fetch_count'', PInt 2)]
   \<and> actualizar_tasas_api 2
        \<lparr>today = ''2025-01-02'', utcnow = ''2025-01-02T10:00:00'', http = ConnectionFailed,
          disk = Written\<rparr>
        (initial_world (Json (PDict [(''day'', PStr ''2025-01-02''), (''fetch_count'', PInt 2)])))
      = (Inr False,
         (initial_world (Json (PDict [(''day'', PStr ''2025-01-02''), (''fetch_count'', PInt 2)])))
           \<lparr>printed := [LimitReached]\<rparr>)
   \<and> remaining_today
        (initial_world (Json (PDict [(''day'', PStr ''2025-01-02''), (''fetch_count'', PInt 2)])))
        ''2025-01-02'' = Inr (PInt 0)
   \<and> remaining_today
        (initial_world (Json (PDict [(''day'', PStr ''2025-01-01''), (''fetch_count'', PInt 2)])))
        ''2025-01-02'' = Inr (PInt 2)"
  using quota_exceeded_no_fetch
          [of "initial_world (Json (PDict [(''day'', PStr ''2025-01-02''), (''fetch_count'', PInt 2)]))"
              "[(''day'', PStr ''2025-01-02''), (''fetch_count'', PInt 2)]" 2
              "\<lparr>today = ''2025-01-02'', utcnow = ''2025-01-02T10:00:00'', http = ConnectionFailed,
                disk = Written\<rparr>"]
        quota_exceeded_no_fetch
          [of "initial_world (Json (PDict [(''day'', PStr ''2025-01-01''), (''fetch_count'', PInt 2)]))"
              "[(''day'', PStr ''2025-01-01''), (''fetch_count'', PInt 2)]" 2
              "\<lparr>today = ''2025-01-02'', utcnow = ''2025-01-02T10:00:00'', http = ConnectionFailed,
                disk = Written\<rparr>"]
  by (simp add: load_cache_def initial_world_def)

subsection \<open>A failed request\<close>

text \<open>The responses for which \<^verbatim>\<open>_fetch_rates_from_api\<close> raises.\<close>

lemma fetch_failures:
  "fetch_rates_from_api ConnectionFailed = Inl URLError"
  "fetch_rates_from_api TransferFailed = Inl OtherException"
  "(\<And>kvs. data \<noteq> PDict kvs) \<Longrightarrow> fetch_rates_from_api (Body data) = Inl RuntimeError"
  "map_of kvs ''rates'' = None \<Longrightarrow> fetch_rates_from_api (Body (PDict kvs)) = Inl RuntimeError"
  by (auto simp: fetch_rates_from_api_def split: pyval.splits)

text \<open>
  C3. When \<^verbatim>\<open>_fetch_rates_from_api\<close> raises, \<^verbatim>\<open>actualizar_tasas_api\<close> leaves the rate table
  and the cache file as they were; and when the limit was not reached it returns
  \<^verbatim>\<open>False\<close>, having made one request and printed one error message.
\<close>

theorem failed_fetch_changes_nothing:
  assumes "fetch_rates_from_api (http ev) = Inl ex"
  shows "RATES (snd (actualizar_tasas_api m ev w)) = RATES w \<and>
         cache_file (snd (actualizar_tasas_api m ev w)) = cache_file w \<and>
         (limit_reached (or_empty (load_cache w)) (today ev) m = Inr False \<longrightarrow>
            actualizar_tasas_api m ev w =
              (Inr False,
               w\<lparr>requests := requests w + 1,
                 printed := printed w @ [if ex = URLError then ConnectError else FetchError]\<rparr>))"
  using assms
  by (auto simp: actualizar_tasas_api_def Let_def split: sum.splits)

theorem failed_fetch_changes_nothing_witness:
  "fetch_rates_from_api (Body (PList [])) = Inl RuntimeError
   \<and> limit_reached (or_empty (load_cache (initial_world Missing))) ''2025-01-02'' 2 = Inr False
   \<and> actualizar_tasas_api 2
        \<lparr>today = ''2025-01-02'', utcnow = ''2025-01-02T10:00:00'', http = Body (PList []),
          disk = Written\<rparr>
        (initial_world Missing)
      = (Inr False, (initial_world Missing)\<lparr>requests := 1, printed := [FetchError]\<rparr>)"
  using failed_fetch_changes_nothing
          [of "\<lparr>today = ''2025-01-02'', utcnow = ''2025-01-02T10:00:00'', http = Body (PList []),
                disk = Written\<rparr>"
              RuntimeError 2 "initial_world Missing"]
  by (simp add: state_defs fetch_rates_from_api_def)

subsection \<open>Values that are not positive\<close>

text \<open>The manual override stores a value only when it is greater than 0.\<close>

lemma dec_le_zero_False: "dec_le_zero d = Inr False \<Longrightarrow> dec_positive d"
  by (cases d) auto

lemma actualizar_tasa_loop_positive:
  "actualizar_tasa_loop code inputs w = (Inr u, w') \<Longrightarrow>
     \<exists>val. dec_positive val \<and> RATES w' = AList.update code val (RATES w)"
proof (induction inputs arbitrary: w)
  case Nil
  then show ?case by simp
next
  case (Cons line rest)
  let ?raw = "map (\<lambda>c. if c = CHR '','' then CHR ''.'' else c) (strip line)"
  let ?retry = "\<lambda>m. actualizar_tasa_loop code rest (w\<lparr>printed := printed w @ [m]\<rparr>)"
  have retry: "\<exists>val. dec_positive val \<and> RATES w' = AList.update code val (RATES w)"
    if "?retry m = (Inr u, w')" for m
    using Cons.IH [OF that] by simp
  show ?case
  proof (cases "Decimal_of_string ?raw")
    case (Inl ex)
    with Cons.prems have "?retry InvalidValue = (Inr u, w')" by (simp add: Let_def)
    then show ?thesis by (rule retry)
  next
    case (Inr val)
    show ?thesis
    proof (cases "dec_le_zero val")
      case (Inl ex)
      with Inr Cons.prems have "?retry InvalidValue = (Inr u, w')" by (simp add: Let_def)
      then show ?thesis by (rule retry)
    next
      case nonpos: (Inr b)
      show ?thesis
      proof (cases b)
        case True
        with nonpos Inr Cons.prems have "?retry MustBePositive = (Inr u, w')"
          by (simp add: Let_def)
        then show ?thesis by (rule retry)
      next
        case False
        with nonpos have "dec_positive val" by (simp add: dec_le_zero_False)
        moreover from False nonpos Inr Cons.prems
        have "RATES w' = AList.update code val (RATES w)" by (auto simp: Let_def)
        ultimately show ?thesis by blast
      qed
    qed
  qed
qed

text \<open>
  The example of the specification: of the cached rates
  \<^verbatim>\<open>{"USD": "not-a-number", "EUR": "0.9"}\<close> only the second is stored, and the count is 1.
\<close>

lemma apply_cached_rates_example:
  "apply_cached_rates
     (initial_world
        (Json (PDict [(''rates'',
           PDict [(''USD'', PStr ''not-a-number''), (''EUR'', PStr ''0.9'')])])))
   = (Inr (PInt 1),
      (initial_world
        (Json (PDict [(''rates'',
           PDict [(''USD'', PStr ''not-a-number''), (''EUR'', PStr ''0.9'')])])))
        \<lparr>RATES := AList.update ''EUR'' (Finite False 9 (- 1)) default_rates\<rparr>)"
  by (simp add: state_defs parse_defs)

text \<open>
  C4. \<^verbatim>\<open>_apply_cached_rates\<close> does not test the sign: the cached rate \<^verbatim>\<open>"-0.9"\<close> of a
  supported code is stored and counted.
\<close>

theorem apply_cached_rates_stores_negative:
  "apply_cached_rates
     (initial_world (Json (PDict [(''rates'', PDict [(''EUR'', PStr ''-0.9'')])])))
   = (Inr (PInt 1),
      (initial_world (Json (PDict [(''rates'', PDict [(''EUR'', PStr ''-0.9'')])])))
        \<lparr>RATES := AList.update ''EUR'' (Finite True 9 (- 1)) default_rates\<rparr>)"
  by (simp add: state_defs parse_defs)

text \<open>
  C5. A cached rate \<^verbatim>\<open>"0"\<close> is stored in the table at startup, so the table holds a
  rate that is not positive, and a conversion from that currency then raises
  \<^verbatim>\<open>DivisionByZero\<close>.
\<close>

theorem cached_zero_rate_is_stored:
  "map_of (RATES (snd (apply_cached_rates
       (initial_world (Json (PDict [(''rates'', PDict [(''EUR'', PStr ''0'')])])))))) ''EUR''
     = Some (Finite False 0 0)
   \<and> \<not> dec_positive (Finite False 0 0)
   \<and> fst (convertir
        (snd (apply_cached_rates
           (initial_world (Json (PDict [(''rates'', PDict [(''EUR'', PStr ''0'')])])))))
        (Finite False 1 0) ''EUR'' ''USD'') = Inl DivisionByZero"
  by (simp add: state_defs parse_defs convertir_def lookup_def)

subsection \<open>Malformed cache files\<close>

text \<open>
  C6. With the cache file \<^verbatim>\<open>{"day": today, "fetch_count": "2"}\<close> the comparison of line
  172 raises \<^verbatim>\<open>TypeError\<close> in \<^verbatim>\<open>actualizar_tasas_api\<close>; with the cache file \<^verbatim>\<open>[1]\<close>, a JSON
  document that is not an object, \<^verbatim>\<open>cache.get\<close> raises \<^verbatim>\<open>AttributeError\<close> in
  \<^verbatim>\<open>_apply_cached_rates\<close> and in \<^verbatim>\<open>actualizar_tasas_api\<close>.
\<close>

theorem malformed_cache_raises:
  "fst (actualizar_tasas_api 2
         \<lparr>today = ''2025-01-02'', utcnow = ''2025-01-02T10:00:00'', http = ConnectionFailed,
           disk = Written\<rparr>
         (initial_world (Json (PDict [(''day'', PStr ''2025-01-02''), (''fetch_count'', PStr ''2'')]))))
     = Inl TypeError
   \<and> fst (apply_cached_rates (initial_world (Json (PList [PInt 1])))) = Inl AttributeError
   \<and> fst (actualizar_tasas_api 2
         \<lparr>today = ''2025-01-02'', utcnow = ''2025-01-02T10:00:00'', http = ConnectionFailed,
           disk = Written\<rparr>
         (initial_world (Json (PList [PInt 1])))) = Inl AttributeError"
  by (simp add: state_defs actualizar_tasas_api_def)

subsection \<open>Conversion and presentation do not write\<close>

text \<open>
  C10. \<^verbatim>\<open>convertir\<close> and \<^verbatim>\<open>formatea\<close> return the state they were given, so the rate table,
  the cache file and the remaining updates of the day are unchanged; the result of
  \<^verbatim>\<open>convertir\<close> is the same in two states with the same rate table, the result of
  \<^verbatim>\<open>formatea\<close> is the same in any two states.
\<close>

theorem conversion_is_read_only:
  "snd (convertir w monto desde hacia) = w \<and>
   snd (formatea w valor code) = w \<and>
   remaining_today (snd (convertir w monto desde hacia)) tod = remaining_today w tod \<and>
   remaining_today (snd (formatea w valor code)) tod = remaining_today w tod \<and>
   (RATES w = RATES w' \<longrightarrow>
      fst (convertir w monto desde hacia) = fst (convertir w' monto desde hacia)) \<and>
   fst (formatea w valor code) = fst (formatea w' valor code)"
  by (auto simp: convertir_def formatea_def split: sum.splits)

theorem conversion_is_read_only_witness:
  "RATES (initial_world Missing) = RATES (initial_world Unreadable)
   \<and> fst (convertir (initial_world Missing) (Finite False 100 0) ''USD'' ''MXN'')
       = fst (convertir (initial_world Unreadable) (Finite False 100 0) ''USD'' ''MXN'')
   \<and> snd (convertir (initial_world Missing) (Finite False 100 0) ''USD'' ''MXN'')
       = initial_world Missing"
  using conversion_is_read_only
          [of "initial_world Missing" "Finite False 100 0" "''USD''" "''MXN''" _ _ _
              "initial_world Unreadable"]
  by (simp add: initial_world_def)

subsection \<open>A successful update\<close>






subsection \<open>Digits\<close>

lemma ndigits_pos: "0 < ndigits n"
  by (subst ndigits.simps) simp

lemma ndigits_le_iff: "0 < k \<Longrightarrow> ndigits n \<le> k \<longleftrightarrow> n < 10 ^ k"
proof (induction n arbitrary: k rule: ndigits.induct)
  case (1 n)
  show ?case
  proof (cases "n < 10")
    case True
    have "(10::nat) ^ 1 \<le> 10 ^ k" using 1(2) by (intro power_increasing) auto
    with True have "n < 10 ^ k" by simp
    moreover from True have "ndigits n = 1" by (subst ndigits.simps) simp
    ultimately show ?thesis using 1(2) by simp
  next
    case False
    then have nd: "ndigits n = Suc (ndigits (n div 10))" by (subst ndigits.simps) simp
    show ?thesis
    proof (cases k)
      case 0
      with 1(2) show ?thesis by simp
    next
      case (Suc j)
      show ?thesis
      proof (cases "j = 0")
        case True
        with Suc False nd ndigits_pos [of "n div 10"] show ?thesis by simp
      next
        case j: False
        then have "ndigits (n div 10) \<le> j \<longleftrightarrow> n div 10 < 10 ^ j"
          using 1(1) [OF False] by simp
        also have "\<dots> \<longleftrightarrow> n < 10 ^ Suc j"
          by (simp add: div_less_iff_less_mult mult.commute)
        finally show ?thesis using nd Suc by simp
      qed
    qed
  qed
qed

lemma ndigits_upper: "n < 10 ^ ndigits n"
  using ndigits_le_iff [of "ndigits n" n] ndigits_pos [of n] by simp

lemma ndigits_lower: "0 < n \<Longrightarrow> 10 ^ (ndigits n - 1) \<le> n"
proof (rule ccontr)
  assume n: "0 < n" and "\<not> 10 ^ (ndigits n - 1) \<le> n"
  then have lt: "n < 10 ^ (ndigits n - 1)" by simp
  show False
  proof (cases "ndigits n - 1 = 0")
    case True
    with lt n show False by simp
  next
    case False
    then have "ndigits n \<le> ndigits n - 1"
      using ndigits_le_iff [of "ndigits n - 1" n] lt by simp
    with False show False by simp
  qed
qed

lemma length_digits_of: "length (digits_of n) = ndigits n"
  by (induction n rule: digits_of.induct) (subst digits_of.simps, subst ndigits.simps, simp)

lemma digits_of_small: "n < 10 \<Longrightarrow> digits_of n = [digit_char n]"
  by (subst digits_of.simps) simp

lemma digits_of_step: "10 \<le> n \<Longrightarrow> digits_of n = digits_of (n div 10) @ [digit_char (n mod 10)]"
  by (subst digits_of.simps) simp

lemma digits_of_hundred:
  assumes "100 \<le> n"
  shows "digits_of n = digits_of (n div 100) @ [digit_char (n div 10 mod 10), digit_char (n mod 10)]"
proof -
  from assms have "10 \<le> n div 10" by simp
  then have "digits_of (n div 10) = digits_of (n div 10 div 10) @ [digit_char (n div 10 mod 10)]"
    by (rule digits_of_step)
  moreover have "n div 10 div 10 = n div 100" by (simp add: div_mult2_eq)
  ultimately show ?thesis using assms digits_of_step [of n] by simp
qed

lemma str_Decimal_cents: "str_Decimal (Finite s n (- 2)) = two_decimals s n"
proof -
  consider "n < 10" | "10 \<le> n" "n < 100" | "100 \<le> n" by linarith
  then show ?thesis
  proof cases
    case 1
    then show ?thesis
      by (simp add: str_Decimal_def two_decimals_def digits_of_small Let_def digit_char_def)
  next
    case 2
    then have "n div 10 < 10" by simp
    with 2 show ?thesis
      by (simp add: str_Decimal_def two_decimals_def digits_of_step digits_of_small Let_def
          digit_char_def)
  next
    case 3
    then have len: "length (digits_of (n div 100)) > 0"
      by (simp add: length_digits_of ndigits_pos)
    from 3 show ?thesis
      using len
      by (simp add: str_Decimal_def two_decimals_def digits_of_hundred Let_def)
  qed
qed

subsection \<open>Presentation\<close>

lemma half_up_div:
  assumes "0 < d"
  shows "nat \<lfloor>real c / real d + 1 / 2\<rfloor> = (if d \<le> 2 * (c mod d) then c div d + 1 else c div d)"
proof -
  define q r where "q = c div d" and "r = c mod d"
  have c: "c = q * d + r" and r: "r < d" using assms by (simp_all add: q_def r_def)
  have "real c / real d + 1 / 2 = real (2 * c + d) / real (2 * d)"
    using assms by (simp add: field_simps)
  then have "nat \<lfloor>real c / real d + 1 / 2\<rfloor> = (2 * c + d) div (2 * d)"
    by (simp only: floor_divide_of_nat_eq nat_int)
  also have "2 * c + d = (2 * r + d) + (2 * d) * q" by (simp add: c algebra_simps)
  also have "((2 * r + d) + (2 * d) * q) div (2 * d) = q + (2 * r + d) div (2 * d)"
    using assms by (subst div_mult_self2) auto
  also have "(2 * r + d) div (2 * d) = (if d \<le> 2 * r then 1 else 0)"
  proof (cases "d \<le> 2 * r")
    case True
    then have "2 * d \<le> 2 * r + d" "2 * r + d < 2 * (2 * d)" using r by auto
    then have "(2 * r + d) div (2 * d) = 1"
      by (simp add: div_nat_eqI)
    with True show ?thesis by simp
  next
    case False
    then have "2 * r + d < 2 * d" by simp
    with False show ?thesis by simp
  qed
  finally show ?thesis by (simp add: q_def r_def)
qed

lemma abs_fin_val:
  "\<bar>fin_val s c e\<bar> = (if 0 \<le> e then real c * 10 ^ nat e else real c / 10 ^ nat (- e))"
  by (simp add: fin_val_def abs_mult)

lemma rescale_half_up:
  "rescale s c e (- 2) ROUND_HALF_UP = half_up_cents (fin_val s c e)"
proof (cases "- 2 \<le> e")
  case True
  have "\<bar>fin_val s c e\<bar> * 100 = real (c * 10 ^ nat (e + 2))"
  proof (cases "0 \<le> e")
    case True
    then have "nat (e + 2) = nat e + 2" by simp
    with True show ?thesis by (simp add: abs_fin_val power_add)
  next
    case False
    with \<open>- 2 \<le> e\<close> consider "e = - 1" | "e = - 2" by linarith
    then show ?thesis by cases (simp_all add: abs_fin_val)
  qed
  then have "half_up_cents (fin_val s c e) = c * 10 ^ nat (e + 2)"
    unfolding half_up_cents_def by (simp only: ) linarith
  with True show ?thesis by (simp add: rescale_def)
next
  case False
  define k where "k = nat (- 2 - e)"
  from False have ne: "nat (- e) = k + 2" by (simp add: k_def)
  have hd: "nat \<lfloor>real c / real (10 ^ k) + 1 / 2\<rfloor> =
      (if 10 ^ k \<le> 2 * (c mod 10 ^ k) then c div 10 ^ k + 1 else c div 10 ^ k)"
    by (rule half_up_div) simp
  from False have "\<bar>fin_val s c e\<bar> * 100 = real c / real (10 ^ k)"
    by (simp add: abs_fin_val ne power_add)
  with hd have "half_up_cents (fin_val s c e) =
      (if 10 ^ k \<le> 2 * (c mod 10 ^ k) then c div 10 ^ k + 1 else c div 10 ^ k)"
    unfolding half_up_cents_def by simp
  moreover have "rescale s c e (- 2) ROUND_HALF_UP =
      (if 10 ^ k \<le> 2 * (c mod 10 ^ k) then c div 10 ^ k + 1 else c div 10 ^ k)"
    using False by (auto simp: rescale_def round_coeff_def Let_def k_def)
  ultimately show ?thesis by simp
qed

lemma fin_val_powi: "fin_val s c e = (if s then - 1 else 1) * (real c * 10 powi e)"
  by (cases "0 \<le> e") (simp_all add: fin_val_def power_int_def field_simps)

lemma adjusted_bounds:
  assumes "0 < c"
  shows "10 powi adjusted c e \<le> real c * 10 powi e"
    and "real c * 10 powi e < 10 powi (adjusted c e + 1)"
proof -
  have pos: "(0::real) < 10 powi e" by simp
  have lo: "adjusted c e = int (ndigits c - 1) + e"
    using ndigits_pos [of c] by (simp add: adjusted_def)
  have hi: "adjusted c e + 1 = int (ndigits c) + e"
    by (simp add: adjusted_def)
  have split_lo: "(10::real) powi adjusted c e = 10 powi int (ndigits c - 1) * 10 powi e"
    unfolding lo by (rule power_int_add) simp
  have split_hi: "(10::real) powi (adjusted c e + 1) = 10 powi int (ndigits c) * 10 powi e"
    unfolding hi by (rule power_int_add) simp
  have "real (10 ^ (ndigits c - 1)) \<le> real c"
    using ndigits_lower [OF assms] by (simp only: of_nat_le_iff)
  then have "(10::real) powi int (ndigits c - 1) \<le> real c" by simp
  then have "(10::real) powi int (ndigits c - 1) * 10 powi e \<le> real c * 10 powi e"
    using pos by (simp only: mult_le_cancel_right_pos)
  then show "10 powi adjusted c e \<le> real c * 10 powi e"
    by (simp only: split_lo)
  have "real c < real (10 ^ ndigits c)"
    using ndigits_upper [of c] by (simp only: of_nat_less_iff)
  then have "real c < (10::real) powi int (ndigits c)" by simp
  then have "real c * 10 powi e < (10::real) powi int (ndigits c) * 10 powi e"
    using pos by (simp only: mult_less_cancel_right_pos)
  then show "real c * 10 powi e < 10 powi (adjusted c e + 1)"
    by (simp only: split_hi)
qed

lemma abs_fin_val_powi: "\<bar>fin_val s c e\<bar> = real c * 10 powi e"
  by (simp add: fin_val_powi abs_mult)

lemma cents_large:
  assumes "0 < c" "25 < adjusted c e"
  shows "10 ^ 28 \<le> half_up_cents (fin_val s c e)"
proof -
  have "(10::real) powi 26 \<le> 10 powi adjusted c e"
    using assms(2) by (intro power_int_increasing) auto
  also have "\<dots> \<le> \<bar>fin_val s c e\<bar>"
    using adjusted_bounds(1) [OF assms(1)] by (simp add: abs_fin_val_powi)
  finally have "(10::real) ^ 28 \<le> \<bar>fin_val s c e\<bar> * 100 + 1 / 2" by simp
  then have "(10::int) ^ 28 \<le> \<lfloor>\<bar>fin_val s c e\<bar> * 100 + 1 / 2\<rfloor>"
    by (simp add: le_floor_iff)
  then show ?thesis by (simp add: half_up_cents_def le_nat_iff)
qed

lemma dec_fix_cents:
  assumes "n < 10 ^ 28"
  shows "dec_fix s n (- 2) = Inr (Finite s n (- 2))"
proof (cases "n = 0")
  case True
  then show ?thesis by (simp add: dec_fix_def Etiny_def Emin_def Emax_def prec_def)
next
  case False
  have "ndigits n \<le> 28" using assms by (simp add: ndigits_le_iff)
  with False show ?thesis
    by (simp add: dec_fix_def Etiny_def Emin_def Emax_def Etop_def prec_def)
qed

lemma formatea_finite:
  "formatea w (Finite s c e) code =
     (if half_up_cents (fin_val s c e) < 10 ^ 28
      then (Inr (two_decimals s (half_up_cents (fin_val s c e)) @ '' '' @ code), w)
      else (Inl InvalidOperation, w))"
proof (cases "c = 0")
  case True
  then have "half_up_cents (fin_val s c e) = 0"
    by (simp add: half_up_cents_def fin_val_def)
  with True show ?thesis
    by (simp add: formatea_def Etiny_def Emin_def Emax_def prec_def dec_fix_cents
        str_Decimal_cents)
next
  case False
  define n where "n = half_up_cents (fin_val s c e)"
  have rs: "rescale s c e (- 2) ROUND_HALF_UP = n"
    by (simp add: rescale_half_up n_def)
  show ?thesis
  proof (cases "n < 10 ^ 28")
    case True
    then have adj: "adjusted c e \<le> 25"
      using cents_large [of c e s] False by (fastforce simp: n_def)
    from True have nd: "ndigits n \<le> 28" by (simp add: ndigits_le_iff)
    then have "adjusted n (- 2) \<le> Emax" by (simp add: adjusted_def Emax_def)
    with True adj nd False show ?thesis
      by (simp add: formatea_def rs Etiny_def Emin_def Emax_def prec_def dec_fix_cents
          str_Decimal_cents n_def [symmetric] Let_def)
  next
    case large: False
    then have "\<not> ndigits n \<le> 28" by (simp add: ndigits_le_iff)
    with large False show ?thesis
      by (simp add: formatea_def rs Etiny_def Emin_def Emax_def prec_def
          n_def [symmetric] Let_def)
  qed
qed

text \<open>
  C9, as the code has it. For a finite amount whose magnitude in cents, rounded half up,
  is below \<open>10^28\<close>, \<^verbatim>\<open>formatea\<close> returns the text of that many cents with exactly two
  fractional digits, a space and the code; for a larger amount and for an infinite one
  \<^verbatim>\<open>quantize\<close> raises \<^verbatim>\<open>InvalidOperation\<close>. \<^verbatim>\<open>Decimal("1.005")\<close> gives \<^verbatim>\<open>1.01 USD\<close> and
  \<^verbatim>\<open>Decimal("1.004")\<close> gives \<^verbatim>\<open>1.00 USD\<close>.
\<close>

theorem formatea_rounds_half_up:
  "formatea w (Finite s c e) code =
     (if half_up_cents (fin_val s c e) < 10 ^ 28
      then (Inr (two_decimals s (half_up_cents (fin_val s c e)) @ '' '' @ code), w)
      else (Inl InvalidOperation, w)) \<and>
   formatea w (Infinity s) code = (Inl InvalidOperation, w) \<and>
   Decimal_of_string ''1.005'' = Inr (Finite False 1005 (- 3)) \<and>
   formatea w (Finite False 1005 (- 3)) ''USD'' = (Inr ''1.01 USD'', w) \<and>
   Decimal_of_string ''1.004'' = Inr (Finite False 1004 (- 3)) \<and>
   formatea w (Finite False 1004 (- 3)) ''USD'' = (Inr ''1.00 USD'', w)"
proof -
  have "formatea w (Finite False 1005 (- 3)) ''USD'' = (Inr ''1.01 USD'', w)"
    by (simp add: formatea_def adjusted_def arith_defs str_defs)
  moreover have "formatea w (Finite False 1004 (- 3)) ''USD'' = (Inr ''1.00 USD'', w)"
    by (simp add: formatea_def adjusted_def arith_defs str_defs)
  moreover have "Decimal_of_string ''1.005'' = Inr (Finite False 1005 (- 3))"
    by (simp add: parse_defs)
  moreover have "Decimal_of_string ''1.004'' = Inr (Finite False 1004 (- 3))"
    by (simp add: parse_defs)
  moreover have "formatea w (Infinity s) code = (Inl InvalidOperation, w)"
    by (simp add: formatea_def)
  ultimately show ?thesis using formatea_finite by simp
qed

text \<open>The amount \<^verbatim>\<open>1E+26\<close> has no text: the claim fails there.\<close>

theorem formatea_large_amount_raises:
  "fst (formatea (initial_world Missing) (Finite False 1 26) ''USD'') = Inl InvalidOperation \<and>
   fst (formatea (initial_world Missing) (Finite False 1 26) ''USD'')
     \<noteq> Inr (two_decimals False (half_up_cents (fin_val False 1 26)) @ '' USD'')"
  by (simp add: formatea_def adjusted_def arith_defs)

subsection \<open>Accuracy of the rounding of the context\<close>

lemma round_even_err:
  "\<bar>real (round_coeff ROUND_HALF_EVEN c k) * 10 ^ k - real c\<bar> \<le> 10 ^ k / 2"
proof -
  define q r where "q = c div 10 ^ k" and "r = c mod 10 ^ k"
  have c: "c = q * 10 ^ k + r" unfolding q_def r_def by (rule div_mult_mod_eq [symmetric])
  have r: "r < 10 ^ k" by (simp add: r_def)
  then have rr: "real r < 10 ^ k" by (metis of_nat_less_iff of_nat_numeral of_nat_power)
  have cr: "real c = real q * 10 ^ k + real r" by (subst c) simp
  show ?thesis
  proof (cases "10 ^ k < 2 * r \<or> (2 * r = 10 ^ k \<and> odd q)")
    case True
    then have "10 ^ k \<le> 2 * r" by auto
    then have "real (10 ^ k) \<le> real (2 * r)" by (simp only: of_nat_le_iff)
    then have h: "(10::real) ^ k \<le> 2 * real r" by simp
    from True have "round_coeff ROUND_HALF_EVEN c k = q + 1"
      by (simp add: round_coeff_def q_def r_def Let_def)
    then have "real (round_coeff ROUND_HALF_EVEN c k) * 10 ^ k - real c = 10 ^ k - real r"
      by (simp add: cr algebra_simps)
    with h rr show ?thesis by simp
  next
    case False
    then have "2 * r \<le> 10 ^ k" by auto
    then have "real (2 * r) \<le> real (10 ^ k)" by (simp only: of_nat_le_iff)
    then have h: "2 * real r \<le> (10::real) ^ k" by simp
    from False have "round_coeff ROUND_HALF_EVEN c k = q"
      by (simp add: round_coeff_def q_def r_def Let_def)
    then have "real (round_coeff ROUND_HALF_EVEN c k) * 10 ^ k - real c = - real r"
      by (simp add: cr)
    with h show ?thesis by simp
  qed
qed

lemma round_even_le:
  assumes "c < 10 ^ (k + p)"
  shows "round_coeff ROUND_HALF_EVEN c k \<le> 10 ^ p"
proof -
  have "c div 10 ^ k < 10 ^ p"
    using assms by (simp add: div_less_iff_less_mult power_add mult.commute)
  then show ?thesis by (simp add: round_coeff_def Let_def)
qed

lemma dec_fix_accurate:
  assumes c: "0 < c" and lo: "Emin \<le> adjusted c e" and hi: "adjusted c e < Emax"
  shows "\<exists>c' e'. dec_fix s c e = Inr (Finite s c' e') \<and>
           \<bar>real c' * 10 powi e' - real c * 10 powi e\<bar> \<le> 10 powi (adjusted c e - 27) / 2"
proof -
  define xm where "xm = adjusted c e - 27"
  have xm_eq: "int (ndigits c) + e - int prec = xm"
    by (simp add: xm_def adjusted_def prec_def)
  have top: "\<not> Etop < xm" using hi by (simp add: xm_def Etop_def prec_def)
  have tiny: "max xm Etiny = xm" using lo by (simp add: xm_def Etiny_def prec_def)
  have nonneg: "(0::real) \<le> 10 powi (adjusted c e - 27) / 2" by simp
  show ?thesis
  proof (cases "e < xm")
    case False
    with c top tiny have "dec_fix s c e = Inr (Finite s c e)"
      by (simp add: dec_fix_def xm_eq Let_def)
    with nonneg show ?thesis by simp
  next
    case True
    define k where "k = nat (xm - e)"
    have k: "int k = xm - e" using True by (simp add: k_def)
    have nd: "ndigits c = k + 28"
      using k xm_eq by (simp add: prec_def)
    define q where "q = round_coeff ROUND_HALF_EVEN c k"
    have q_le: "q \<le> 10 ^ 28"
      unfolding q_def using ndigits_upper [of c] by (intro round_even_le) (simp add: nd)
    have split: "(10::real) powi xm = 10 ^ k * 10 powi e"
    proof -
      have "xm = int k + e" using k by simp
      then have "(10::real) powi xm = 10 powi int k * 10 powi e"
        by (simp only: ) (rule power_int_add, simp)
      then show ?thesis by simp
    qed
    have "real q * 10 powi xm - real c * 10 powi e = (real q * 10 ^ k - real c) * 10 powi e"
      by (simp add: split algebra_simps)
    then have "\<bar>real q * 10 powi xm - real c * 10 powi e\<bar>
        = \<bar>real q * 10 ^ k - real c\<bar> * 10 powi e"
      by (simp add: abs_mult)
    also have "\<dots> \<le> (10 ^ k / 2) * 10 powi e"
      using round_even_err [of c k] unfolding q_def
      by (intro mult_right_mono) auto
    also have "\<dots> = 10 powi xm / 2" by (simp add: split)
    finally have err: "\<bar>real q * 10 powi xm - real c * 10 powi e\<bar> \<le> 10 powi xm / 2" .
    show ?thesis
    proof (cases "ndigits q > prec")
      case carried: True
      then have "\<not> q < 10 ^ 28" using ndigits_le_iff [of 28 q] by (simp add: prec_def)
      with q_le have q28: "q = 10 ^ 28" by simp
      have "xm + 1 \<le> Etop" using hi by (simp add: xm_def Etop_def prec_def)
      then have "dec_fix s c e = Inr (Finite s (q div 10) (xm + 1))"
        using c top tiny True carried
        by (simp add: dec_fix_def xm_eq Let_def k_def q_def)
      moreover have "real (q div 10) * 10 powi (xm + 1) = real q * 10 powi xm"
        by (simp add: q28 power_int_add)
      ultimately show ?thesis using err by (auto simp: xm_def)
    next
      case False
      then have "dec_fix s c e = Inr (Finite s q xm)"
        using c top tiny True
        by (simp add: dec_fix_def xm_eq Let_def k_def q_def)
      then show ?thesis using err by (auto simp: xm_def)
    qed
  qed
qed

subsection \<open>Accuracy of multiplication and division\<close>

lemma adjusted_ge:
  assumes "0 < c" "10 powi L \<le> real c * 10 powi e"
  shows "L \<le> adjusted c e"
proof (rule ccontr)
  assume "\<not> L \<le> adjusted c e"
  then have "adjusted c e + 1 \<le> L" by simp
  then have "(10::real) powi (adjusted c e + 1) \<le> 10 powi L"
    by (intro power_int_increasing) auto
  with adjusted_bounds(2) [OF assms(1), of e] assms(2) show False by linarith
qed

lemma adjusted_less:
  assumes "0 < c" "real c * 10 powi e < 10 powi U"
  shows "adjusted c e < U"
proof (rule ccontr)
  assume "\<not> adjusted c e < U"
  then have "U \<le> adjusted c e" by simp
  then have "(10::real) powi U \<le> 10 powi adjusted c e"
    by (intro power_int_increasing) auto
  with adjusted_bounds(1) [OF assms(1), of e] assms(2) show False by linarith
qed

lemma dec_fix_rel:
  assumes c: "0 < c"
    and lo: "10 powi Emin \<le> real c * 10 powi e"
    and hi: "real c * 10 powi e < 10 powi Emax"
  shows "\<exists>c' e'. dec_fix s c e = Inr (Finite s c' e') \<and>
           \<bar>real c' * 10 powi e' - real c * 10 powi e\<bar> \<le> real c * 10 powi e * (5 / 10 ^ 28)"
proof -
  from dec_fix_accurate [OF c adjusted_ge [OF c lo] adjusted_less [OF c hi], of s]
  obtain c' e' where fixed: "dec_fix s c e = Inr (Finite s c' e')"
    and err: "\<bar>real c' * 10 powi e' - real c * 10 powi e\<bar> \<le> 10 powi (adjusted c e - 27) / 2"
    by blast
  have "(10::real) powi (adjusted c e - 27) = 10 powi adjusted c e / 10 powi 27"
    by (rule power_int_diff) simp
  also have "\<dots> \<le> real c * 10 powi e / 10 powi 27"
    using adjusted_bounds(1) [OF c, of e] by (simp add: divide_right_mono)
  finally have "10 powi (adjusted c e - 27) / 2 \<le> real c * 10 powi e * (5 / 10 ^ 28)"
    by simp
  with err fixed show ?thesis by (meson order_trans)
qed

lemma dec_mul_accurate:
  assumes c: "0 < c" and c': "0 < c'"
    and lo: "10 powi Emin \<le> (real c * 10 powi e) * (real c' * 10 powi e')"
    and hi: "(real c * 10 powi e) * (real c' * 10 powi e') < 10 powi Emax"
  shows "\<exists>c'' e''. dec_mul (Finite s c e) (Finite s' c' e') = Inr (Finite (s \<noteq> s') c'' e'') \<and>
           \<bar>real c'' * 10 powi e'' - (real c * 10 powi e) * (real c' * 10 powi e')\<bar>
             \<le> (real c * 10 powi e) * (real c' * 10 powi e') * (5 / 10 ^ 28)"
proof -
  have val: "real (c * c') * 10 powi (e + e') = (real c * 10 powi e) * (real c' * 10 powi e')"
    by (simp add: power_int_add)
  have pos: "0 < c * c'" using c c' by simp
  from dec_fix_rel [OF pos, of "e + e'" "s \<noteq> s'"] lo hi
  show ?thesis unfolding val by simp
qed

lemma strip_zeros_value:
  "strip_zeros q ex ideal = (q', ex') \<Longrightarrow>
     real q' * 10 powi ex' = real q * 10 powi ex \<and> (0 < q \<longrightarrow> 0 < q')"
proof (induction q ex ideal rule: strip_zeros.induct)
  case (1 coeff ex ideal)
  show ?case
  proof (cases "ex < ideal \<and> coeff mod 10 = 0")
    case True
    with 1(2) have rec: "strip_zeros (coeff div 10) (ex + 1) ideal = (q', ex')"
      by (subst (asm) strip_zeros.simps) simp
    from True have c10: "coeff = coeff div 10 * 10" by auto
    have "real (coeff div 10) * 10 powi (ex + 1) = real (coeff div 10 * 10) * 10 powi ex"
      by (simp add: power_int_add)
    also have "\<dots> = real coeff * 10 powi ex" using c10 by simp
    finally have "real (coeff div 10) * 10 powi (ex + 1) = real coeff * 10 powi ex" .
    moreover have "0 < coeff \<Longrightarrow> 0 < coeff div 10" using c10 by auto
    ultimately show ?thesis using 1(1) [OF True rec] by auto
  next
    case False
    with 1(2) have "q' = coeff" "ex' = ex"
      by (subst (asm) strip_zeros.simps, simp)+
    then show ?thesis by simp
  qed
qed

text \<open>The quotient of the coefficients and its last digit.\<close>

lemma sticky_quotient:
  fixes num den :: nat
  assumes den: "0 < den" and big: "10 ^ 28 < real num / real den"
    and res: "(q, ex) =
      (if num mod den \<noteq> 0
       then (if num div den mod 5 = 0 then num div den + 1 else num div den, ex0)
       else strip_zeros (num div den) ex0 ideal)"
  shows "0 < q \<and>
         \<bar>real q * 10 powi ex - real num / real den * 10 powi ex0\<bar>
           \<le> real num / real den * 10 powi ex0 / 10 ^ 28"
proof -
  define q0 r where "q0 = num div den" and "r = num mod den"
  define \<rho> where "\<rho> = real num / real den"
  have "num = q0 * den + r" unfolding q0_def r_def by (rule div_mult_mod_eq [symmetric])
  then have numeq: "real num = real q0 * real den + real r"
    by (simp only: of_nat_add of_nat_mult)
  have "r < den" unfolding r_def using den by simp
  then have rlt: "real r < real den" by (simp only: of_nat_less_iff)
  have frac: "\<rho> = real q0 + real r / real den"
    unfolding \<rho>_def numeq using den by (simp add: add_divide_distrib)
  have frac_bounds: "0 \<le> real r / real den" "real r / real den < 1"
    using rlt den by simp_all
  have "10 ^ 28 < real q0 + 1" using big frac frac_bounds unfolding \<rho>_def by linarith
  then have "real ((10::nat) ^ 28) < real (q0 + 1)" by simp
  then have "(10::nat) ^ 28 < q0 + 1" by (simp only: of_nat_less_iff)
  then have q0_pos: "0 < q0" by simp
  have rho_pos: "0 < \<rho>"
  proof -
    have "(0::real) < 10 ^ 28" by simp
    from this big show ?thesis unfolding \<rho>_def by (rule less_trans)
  qed
  have nonneg: "0 \<le> \<rho> * 10 powi ex0 / 10 ^ 28" using rho_pos by simp
  show ?thesis
  proof (cases "r = 0")
    case True
    with res have sz: "strip_zeros q0 ex0 ideal = (q, ex)" by (simp add: q0_def r_def)
    from strip_zeros_value [OF sz] q0_pos
    have "real q * 10 powi ex = real q0 * 10 powi ex0" and "0 < q" by auto
    moreover from True frac have "\<rho> = real q0" by simp
    ultimately show ?thesis using nonneg by (simp add: \<rho>_def)
  next
    case False
    with res have ex: "ex = ex0" and q: "q = q0 \<or> q = q0 + 1"
      by (auto simp: q0_def r_def split: if_splits)
    from q have q1: "\<bar>real q - \<rho>\<bar> \<le> 1" using frac frac_bounds by auto
    have "real q * 10 powi ex - \<rho> * 10 powi ex0 = (real q - \<rho>) * 10 powi ex0"
      by (simp add: ex left_diff_distrib)
    then have "\<bar>real q * 10 powi ex - \<rho> * 10 powi ex0\<bar> = \<bar>real q - \<rho>\<bar> * 10 powi ex0"
      by (simp add: abs_mult)
    also have "\<dots> \<le> 1 * 10 powi ex0"
      using q1 by (intro mult_right_mono) auto
    also have "\<dots> \<le> (\<rho> / 10 ^ 28) * 10 powi ex0"
    proof -
      have "1 \<le> \<rho> / 10 ^ 28" using big by (simp add: \<rho>_def)
      then show ?thesis by (intro mult_right_mono) auto
    qed
    also have "\<dots> = \<rho> * 10 powi ex0 / 10 ^ 28" by simp
    finally have "\<bar>real q * 10 powi ex - \<rho> * 10 powi ex0\<bar> \<le> \<rho> * 10 powi ex0 / 10 ^ 28" .
    moreover from q q0_pos have "0 < q" by auto
    ultimately show ?thesis by (simp add: \<rho>_def)
  qed
qed

lemma powi_nonneg: "0 \<le> n \<Longrightarrow> (10::real) powi n = 10 ^ nat n"
  using power_int_of_nat [of "10::real" "nat n"] by simp

lemma powi_neg: "n < 0 \<Longrightarrow> (10::real) powi n = inverse (10 ^ nat (- n))"
  using power_int_minus [of "10::real" "- n"] powi_nonneg [of "- n"] by simp

lemma shifted_ratio:
  fixes c c' :: nat and shift :: int
  assumes num: "num = (if 0 \<le> shift then c * 10 ^ nat shift else c)"
    and den: "den = (if 0 \<le> shift then c' else c' * 10 ^ nat (- shift))"
    and c': "0 < c'"
  shows "0 < den" and "real num / real den = real c * 10 powi shift / real c'"
proof -
  show "0 < den" using c' by (simp add: den)
  show "real num / real den = real c * 10 powi shift / real c'"
  proof (cases "0 \<le> shift")
    case True
    then have "real num = real c * 10 powi shift" "den = c'"
      by (simp_all add: num den powi_nonneg)
    then show ?thesis by simp
  next
    case False
    then have p: "(10::real) powi shift = inverse (10 ^ nat (- shift))"
      by (simp add: powi_neg)
    from False have "num = c" "real den = real c' * 10 ^ nat (- shift)"
      by (simp_all add: num den)
    then show ?thesis unfolding p by (simp add: divide_inverse mult.assoc mult.left_commute)
  qed
qed

lemma shifted_ratio_big:
  assumes c: "0 < c" and c': "0 < c'"
    and shift: "shift = int (ndigits c') - int (ndigits c) + int prec + 1"
  shows "10 ^ 28 < real c * 10 powi shift / real c'"
proof -
  have "real c' < real (10 ^ ndigits c')"
    using ndigits_upper [of c'] by (simp only: of_nat_less_iff)
  then have "real c' * 10 ^ 28 < 10 powi int (ndigits c') * 10 powi 28" by simp
  also have "\<dots> = 10 powi (int (ndigits c') + 28)"
    by (rule power_int_add [symmetric]) simp
  also have "int (ndigits c') + 28 = int (ndigits c - 1) + shift"
    using ndigits_pos [of c] by (simp add: shift prec_def)
  also have "(10::real) powi (int (ndigits c - 1) + shift)
      = 10 powi int (ndigits c - 1) * 10 powi shift"
    by (rule power_int_add) simp
  also have "\<dots> \<le> real c * 10 powi shift"
  proof -
    have "real (10 ^ (ndigits c - 1)) \<le> real c"
      using ndigits_lower [OF c] by (simp only: of_nat_le_iff)
    then show ?thesis by (intro mult_right_mono) auto
  qed
  finally have "real c' * 10 ^ 28 < real c * 10 powi shift" .
  then show ?thesis using c' by (simp add: pos_less_divide_eq mult.commute)
qed

lemma div_coeff_accurate:
  assumes c: "0 < c" and c': "0 < c'" and dc: "div_coeff c e c' e' = (q, ex)"
  shows "0 < q \<and>
         \<bar>real q * 10 powi ex - (real c * 10 powi e) / (real c' * 10 powi e')\<bar>
           \<le> (real c * 10 powi e) / (real c' * 10 powi e') / 10 ^ 28"
proof -
  define shift where "shift = int (ndigits c') - int (ndigits c) + int prec + 1"
  define ex0 where "ex0 = e - e' - shift"
  define num where "num = (if 0 \<le> shift then c * 10 ^ nat shift else c)"
  define den where "den = (if 0 \<le> shift then c' else c' * 10 ^ nat (- shift))"
  have "div_coeff c e c' e' =
      (if num mod den \<noteq> 0
       then (if num div den mod 5 = 0 then num div den + 1 else num div den, ex0)
       else strip_zeros (num div den) ex0 (e - e'))"
    unfolding div_coeff_def Let_def num_def den_def ex0_def shift_def
    by (rule refl)
  with dc have res: "(q, ex) =
      (if num mod den \<noteq> 0
       then (if num div den mod 5 = 0 then num div den + 1 else num div den, ex0)
       else strip_zeros (num div den) ex0 (e - e'))"
    by simp
  note sr = shifted_ratio [OF num_def den_def c']
  have big: "10 ^ 28 < real num / real den"
    unfolding sr(2) using c c' shift_def by (rule shifted_ratio_big)
  have "(10::real) powi shift * 10 powi ex0 = 10 powi (shift + ex0)"
    by (rule power_int_add [symmetric]) simp
  also have "shift + ex0 = e - e'" by (simp add: ex0_def)
  also have "(10::real) powi (e - e') = 10 powi e / 10 powi e'"
    by (rule power_int_diff) simp
  finally have pw: "(10::real) powi shift * 10 powi ex0 = 10 powi e / 10 powi e'" .
  have "real num / real den * 10 powi ex0 = real c * (10 powi shift * 10 powi ex0) / real c'"
    unfolding sr(2) by simp
  also have "\<dots> = (real c * 10 powi e) / (real c' * 10 powi e')"
    unfolding pw by simp
  finally have Qeq:
    "real num / real den * 10 powi ex0 = (real c * 10 powi e) / (real c' * 10 powi e')" .
  from sticky_quotient [OF sr(1) big res] show ?thesis unfolding Qeq .
qed

lemma dec_div_accurate:
  assumes c: "0 < c" and c': "0 < c'"
    and lo: "10 powi (Emin + 1) \<le> (real c * 10 powi e) / (real c' * 10 powi e')"
    and hi: "(real c * 10 powi e) / (real c' * 10 powi e') < 10 powi (Emax - 1)"
  shows "\<exists>c'' e''. dec_div (Finite s c e) (Finite s' c' e') = Inr (Finite (s \<noteq> s') c'' e'') \<and>
           0 < c'' \<and>
           \<bar>real c'' * 10 powi e'' - (real c * 10 powi e) / (real c' * 10 powi e')\<bar>
             \<le> (real c * 10 powi e) / (real c' * 10 powi e') / 10 ^ 27"
proof -
  define Q where "Q = (real c * 10 powi e) / (real c' * 10 powi e')"
  obtain q ex where dc: "div_coeff c e c' e' = (q, ex)" by (cases "div_coeff c e c' e'")
  define V where "V = real q * 10 powi ex"
  from div_coeff_accurate [OF c c' dc]
  have q: "0 < q" and err1: "\<bar>V - Q\<bar> \<le> Q / 10 ^ 28"
    by (simp_all add: Q_def V_def)
  have lo': "10 powi (Emin + 1) \<le> Q" and hi': "Q < 10 powi (Emax - 1)"
    using lo hi by (simp_all add: Q_def)
  have Qpos: "0 < Q"
  proof -
    have "(0::real) < 10 powi (Emin + 1)" by simp
    from this lo' show ?thesis by (rule less_le_trans)
  qed
  have p1: "(10::real) powi (Emin + 1) = 10 powi Emin * 10"
    by (simp add: power_int_add)
  have p2: "(10::real) powi Emax = 10 powi (Emax - 1) * 10"
    using power_int_add [of "10::real" "Emax - 1" 1] by simp
  define u where "u = Q / 10 ^ 28"
  have u: "0 < u" "Q = u * 10 ^ 28" "Q / 10 ^ 27 = 10 * u"
    using Qpos by (simp_all add: u_def)
  have Vb: "Q - u \<le> V" "V \<le> Q + u"
    using err1 unfolding u_def by (simp_all only: abs_diff_le_iff)
  have Vlo: "Q * (9 / 10) \<le> V" and Vhi: "V \<le> Q * (11 / 10)"
    using Vb u(1) unfolding u(2) by simp_all
  have pos_min: "(0::real) < 10 powi Emin" by simp
  have "10 powi Emin \<le> V"
    using Vlo lo' p1 pos_min by linarith
  moreover have "V < 10 powi Emax"
    using Vhi hi' p2 Qpos by linarith
  ultimately obtain c'' e'' where
    fixed: "dec_fix (s \<noteq> s') q ex = Inr (Finite (s \<noteq> s') c'' e'')"
    and err2: "\<bar>real c'' * 10 powi e'' - V\<bar> \<le> V * (5 / 10 ^ 28)"
    using dec_fix_rel [OF q, of ex "s \<noteq> s'"] unfolding V_def by blast
  define R where "R = real c'' * 10 powi e''"
  have "V * (5 / 10 ^ 28) \<le> (Q * (11 / 10)) * (5 / 10 ^ 28)"
    using Vhi by (intro mult_right_mono) auto
  also have "\<dots> = u * (11 / 2)" by (simp add: u_def)
  finally have v5: "V * (5 / 10 ^ 28) \<le> u * (11 / 2)" .
  have Rb: "V - V * (5 / 10 ^ 28) \<le> R" "R \<le> V + V * (5 / 10 ^ 28)"
    using err2 unfolding R_def by (simp_all only: abs_diff_le_iff)
  have "Q - 10 * u \<le> R" "R \<le> Q + 10 * u"
    using Rb Vb v5 u(1) by linarith+
  then have "\<bar>R - Q\<bar> \<le> Q / 10 ^ 27"
    unfolding u(3) by (simp only: abs_diff_le_iff)
  then have "\<bar>real c'' * 10 powi e'' - Q\<bar> \<le> Q / 10 ^ 27" by (simp add: R_def)
  moreover have "0 < R"
  proof -
    have "Q * (9 / 10) - u * (11 / 2) \<le> R" using Rb(1) Vlo v5 by linarith
    moreover have "0 < Q * (9 / 10) - u * (11 / 2)" unfolding u(2) using u(1) by simp
    ultimately show ?thesis by linarith
  qed
  then have "0 < c''" by (simp add: R_def zero_less_mult_iff)
  moreover have "dec_div (Finite s c e) (Finite s' c' e') = Inr (Finite (s \<noteq> s') c'' e'')"
    using c c' dc fixed by simp
  ultimately show ?thesis unfolding Q_def by blast
qed

subsection \<open>Magnitudes and relative errors\<close>

lemma between_powers_pos: "between_powers a b x \<Longrightarrow> 0 < x"
proof -
  assume "between_powers a b x"
  then have "10 powi a \<le> x" by (simp add: between_powers_def)
  moreover have "(0::real) < 10 powi a" by simp
  ultimately show ?thesis by linarith
qed

lemma between_powers_mono:
  assumes "between_powers a b x" "a' \<le> a" "b \<le> b'"
  shows "between_powers a' b' x"
proof -
  have "(10::real) powi a' \<le> 10 powi a" using assms(2) by (intro power_int_increasing) auto
  moreover have "(10::real) powi b \<le> 10 powi b'" using assms(3) by (intro power_int_increasing) auto
  ultimately show ?thesis using assms(1) by (auto simp: between_powers_def)
qed

lemma between_powers_mult:
  assumes "between_powers a b x" "between_powers a' b' y"
  shows "between_powers (a + a') (b + b') (x * y)"
proof -
  have x: "0 < x" "10 powi a \<le> x" "x < 10 powi b"
    using assms(1) between_powers_pos [OF assms(1)] by (simp_all add: between_powers_def)
  have y: "0 < y" "10 powi a' \<le> y" "y < 10 powi b'"
    using assms(2) between_powers_pos [OF assms(2)] by (simp_all add: between_powers_def)
  have "(10::real) powi (a + a') = 10 powi a * 10 powi a'" by (rule power_int_add) simp
  also have "\<dots> \<le> x * y" using x y by (intro mult_mono) auto
  finally have lo: "10 powi (a + a') \<le> x * y" .
  have "x * y < 10 powi b * 10 powi b'" using x y by (intro mult_strict_mono) auto
  also have "\<dots> = 10 powi (b + b')" by (rule power_int_add [symmetric]) simp
  finally show ?thesis using lo by (simp add: between_powers_def)
qed

lemma between_powers_inverse:
  assumes "between_powers a b x"
  shows "between_powers (- b) (- a + 1) (1 / x)"
proof -
  have x: "0 < x" "10 powi a \<le> x" "x < 10 powi b"
    using assms between_powers_pos [OF assms] by (simp_all add: between_powers_def)
  have "(10::real) powi (- b) = 1 / 10 powi b" by (rule power_int_minus_divide)
  also have "\<dots> \<le> 1 / x" using x by (intro divide_left_mono) auto
  finally have lo: "10 powi (- b) \<le> 1 / x" .
  have "1 / x \<le> 1 / 10 powi a" using x by (intro divide_left_mono) auto
  also have "\<dots> = 10 powi (- a)" by (rule power_int_minus_divide [symmetric])
  also have "\<dots> < 10 powi (- a + 1)" by (intro power_int_strict_increasing) auto
  finally show ?thesis using lo by (simp add: between_powers_def)
qed

lemma between_powers_div:
  assumes "between_powers a b x" "between_powers a' b' y"
  shows "between_powers (a - b') (b - a' + 1) (x / y)"
  using between_powers_mult [OF assms(1) between_powers_inverse [OF assms(2)]]
  by (simp add: algebra_simps)

lemma between_powers_factor:
  assumes "between_powers a b x" "\<bar>f - 1\<bar> \<le> 1 / 2"
  shows "between_powers (a - 1) (b + 1) (x * f)"
proof -
  from assms(2) have "1 - 1 / 2 \<le> f" "f \<le> 1 + 1 / 2"
    by (simp_all only: abs_diff_le_iff)
  then have "between_powers (- 1) 1 f"
    by (simp add: between_powers_def)
  from between_powers_mult [OF assms(1) this] show ?thesis by simp
qed

lemma between_powers_adjusted:
  assumes "0 < c" "\<bar>adjusted c e\<bar> \<le> L"
  shows "between_powers (- L) (L + 1) (real c * 10 powi e)"
proof -
  have "between_powers (adjusted c e) (adjusted c e + 1) (real c * 10 powi e)"
    using adjusted_bounds [OF assms(1), of e] by (simp add: between_powers_def)
  moreover from assms(2) have "- L \<le> adjusted c e" "adjusted c e + 1 \<le> L + 1" by linarith+
  ultimately show ?thesis by (rule between_powers_mono)
qed

lemma rel_err_mult:
  fixes a b :: real
  assumes "\<bar>a - 1\<bar> \<le> p" "\<bar>b - 1\<bar> \<le> q"
  shows "\<bar>a * b - 1\<bar> \<le> p + q + p * q"
proof -
  have p: "0 \<le> p" and q: "0 \<le> q" using assms by linarith+
  have "a * b - 1 = (a - 1) * (b - 1) + (a - 1) + (b - 1)" by (simp add: algebra_simps)
  then have "\<bar>a * b - 1\<bar> \<le> \<bar>(a - 1) * (b - 1)\<bar> + \<bar>a - 1\<bar> + \<bar>b - 1\<bar>"
    by (simp only: ) (intro order_trans [OF abs_triangle_ineq] add_mono abs_triangle_ineq order_refl)
  also have "\<bar>(a - 1) * (b - 1)\<bar> = \<bar>a - 1\<bar> * \<bar>b - 1\<bar>" by (rule abs_mult)
  also have "\<bar>a - 1\<bar> * \<bar>b - 1\<bar> \<le> p * q" using assms by (intro mult_mono) auto
  finally show ?thesis using assms by linarith
qed

lemma rel_factor:
  fixes R T :: real
  assumes "0 < T" "\<bar>R - T\<bar> \<le> T / 10 ^ 27"
  shows "\<exists>f. R = T * f \<and> \<bar>f - 1\<bar> \<le> 1 / 10 ^ 27"
proof -
  have "R / T - 1 = (R - T) / T" using assms(1) by (simp add: field_simps)
  then have "\<bar>R / T - 1\<bar> = \<bar>R - T\<bar> / T" using assms(1) by simp
  also have "\<dots> \<le> (T / 10 ^ 27) / T" using assms by (intro divide_right_mono) auto
  also have "\<dots> = 1 / 10 ^ 27" using assms(1) by simp
  finally have "\<bar>R / T - 1\<bar> \<le> 1 / 10 ^ 27" .
  moreover have "R = T * (R / T)" using assms(1) by simp
  ultimately show ?thesis by blast
qed

lemma div_step:
  assumes c: "0 < c" and c': "0 < c'"
    and range: "between_powers (Emin + 1) (Emax - 1) ((real c * 10 powi e) / (real c' * 10 powi e'))"
  shows "\<exists>c'' e'' f. dec_div (Finite False c e) (Finite False c' e') = Inr (Finite False c'' e'') \<and>
           0 < c'' \<and>
           real c'' * 10 powi e'' = (real c * 10 powi e) / (real c' * 10 powi e') * f \<and>
           \<bar>f - 1\<bar> \<le> 1 / 10 ^ 27"
proof -
  define Q where "Q = (real c * 10 powi e) / (real c' * 10 powi e')"
  from range have lo: "10 powi (Emin + 1) \<le> Q" and hi: "Q < 10 powi (Emax - 1)"
    by (simp_all add: between_powers_def Q_def)
  from between_powers_pos [OF range] have Qpos: "0 < Q" by (simp add: Q_def)
  from dec_div_accurate [OF c c' lo [unfolded Q_def] hi [unfolded Q_def], of False False]
  obtain c'' e'' where
    d: "dec_div (Finite False c e) (Finite False c' e') = Inr (Finite False c'' e'')"
    and p: "0 < c''" and err: "\<bar>real c'' * 10 powi e'' - Q\<bar> \<le> Q / 10 ^ 27"
    unfolding Q_def by auto
  from rel_factor [OF Qpos err] obtain f where
    "real c'' * 10 powi e'' = Q * f" "\<bar>f - 1\<bar> \<le> 1 / 10 ^ 27" by blast
  with d p show ?thesis unfolding Q_def by blast
qed

lemma mul_step:
  assumes c: "0 < c" and c': "0 < c'"
    and range: "between_powers (Emin + 1) (Emax - 1) ((real c * 10 powi e) * (real c' * 10 powi e'))"
  shows "\<exists>c'' e'' f. dec_mul (Finite False c e) (Finite False c' e') = Inr (Finite False c'' e'') \<and>
           0 < c'' \<and>
           real c'' * 10 powi e'' = (real c * 10 powi e) * (real c' * 10 powi e') * f \<and>
           \<bar>f - 1\<bar> \<le> 1 / 10 ^ 27"
proof -
  define P where "P = (real c * 10 powi e) * (real c' * 10 powi e')"
  from range have "between_powers Emin Emax P"
    unfolding P_def by (rule between_powers_mono) simp_all
  then have lo: "10 powi Emin \<le> P" and hi: "P < 10 powi Emax"
    by (simp_all add: between_powers_def)
  from between_powers_pos [OF range] have Ppos: "0 < P" by (simp add: P_def)
  from dec_mul_accurate [OF c c' lo [unfolded P_def] hi [unfolded P_def], of False False]
  obtain c'' e'' where
    d: "dec_mul (Finite False c e) (Finite False c' e') = Inr (Finite False c'' e'')"
    and err5: "\<bar>real c'' * 10 powi e'' - P\<bar> \<le> P * (5 / 10 ^ 28)"
    unfolding P_def by auto
  have "P * (5 / 10 ^ 28) \<le> P / 10 ^ 27" using Ppos by simp
  with err5 have err: "\<bar>real c'' * 10 powi e'' - P\<bar> \<le> P / 10 ^ 27" by linarith
  from rel_factor [OF Ppos err] obtain f where
    f: "real c'' * 10 powi e'' = P * f" "\<bar>f - 1\<bar> \<le> 1 / 10 ^ 27" by blast
  from f(2) have "1 - 1 / 10 ^ 27 \<le> f" by (simp only: abs_diff_le_iff)
  then have "0 < f" by simp
  with Ppos f(1) have "0 < real c'' * 10 powi e''" by simp
  then have "0 < c''" by (simp add: zero_less_mult_iff)
  with d f show ?thesis unfolding P_def by blast
qed

lemma small_factor: "\<bar>f - 1\<bar> \<le> 1 / 10 ^ 27 \<Longrightarrow> \<bar>f - (1::real)\<bar> \<le> 1 / 2"
  by simp


subsection \<open>Conversion and the round trip\<close>

lemma convertir_two_steps:
  assumes "desde \<noteq> hacia"
    and "map_of (RATES w) desde = Some rd" "map_of (RATES w) hacia = Some rh"
    and "dec_div monto rd = Inr usd"
  shows "convertir w monto desde hacia = (dec_mul usd rh, w)"
  using assms by (simp add: convertir_def lookup_def)




lemma convertir_accurate:
  assumes ne: "desde \<noteq> hacia"
    and rd: "map_of (RATES w) desde = Some (Finite False cd ed)"
    and rh: "map_of (RATES w) hacia = Some (Finite False ch eh)"
    and pos: "0 < cd" "0 < ch" "0 < c"
    and range: "\<bar>adjusted c e\<bar> \<le> 300000" "\<bar>adjusted cd ed\<bar> \<le> 300000"
      "\<bar>adjusted ch eh\<bar> \<le> 300000"
  shows "\<exists>cy ey.
      convertir w (Finite False c e) desde hacia = (Inr (Finite False cy ey), w) \<and>
      \<bar>fin_val False cy ey - fin_val False c e / fin_val False cd ed * fin_val False ch eh\<bar>
        \<le> fin_val False c e / fin_val False cd ed * fin_val False ch eh * (21 / 10 ^ 28)"
proof -
  define X A B where "X = real c * 10 powi e" and "A = real cd * 10 powi ed"
    and "B = real ch * 10 powi eh"
  have bX: "between_powers (- 300000) 300001 X"
    unfolding X_def using between_powers_adjusted [OF pos(3) range(1)] by simp
  have bA: "between_powers (- 300000) 300001 A"
    unfolding A_def using between_powers_adjusted [OF pos(1) range(2)] by simp
  have bB: "between_powers (- 300000) 300001 B"
    unfolding B_def using between_powers_adjusted [OF pos(2) range(3)] by simp
  have Xpos: "0 < X" and Apos: "0 < A" and Bpos: "0 < B"
    using bX bA bB by (auto dest: between_powers_pos)
  have lim: "Emin + 1 = - 999998" "Emax - 1 = 999998" by (simp_all add: Emin_def Emax_def)
  have q1: "between_powers (- 600001) 600002 (X / A)"
    using between_powers_div [OF bX bA] by simp
  then have "between_powers (Emin + 1) (Emax - 1) (X / A)"
    unfolding lim by (rule between_powers_mono) simp_all
  from div_step [OF pos(3) pos(1) this [unfolded X_def A_def]]
  obtain c1 e1 f1 where d1: "dec_div (Finite False c e) (Finite False cd ed) = Inr (Finite False c1 e1)"
    and p1: "0 < c1" and v1: "real c1 * 10 powi e1 = X / A * f1"
    and f1: "\<bar>f1 - 1\<bar> \<le> 1 / 10 ^ 27"
    unfolding X_def A_def by blast
  have b1: "between_powers (- 600002) 600003 (X / A * f1)"
    using between_powers_factor [OF q1 small_factor [OF f1]] by simp
  have "between_powers (- 900002) 900004 (X / A * f1 * B)"
    using between_powers_mult [OF b1 bB] by simp
  then have "between_powers (Emin + 1) (Emax - 1) (real c1 * 10 powi e1 * B)"
    unfolding lim v1 by (rule between_powers_mono) simp_all
  from mul_step [OF p1 pos(2) this [unfolded B_def]]
  obtain c2 e2 f2 where d2: "dec_mul (Finite False c1 e1) (Finite False ch eh) = Inr (Finite False c2 e2)"
    and v2: "real c2 * 10 powi e2 = X / A * f1 * B * f2"
    and f2: "\<bar>f2 - 1\<bar> \<le> 1 / 10 ^ 27"
    unfolding B_def v1 by blast
  have run: "convertir w (Finite False c e) desde hacia = (Inr (Finite False c2 e2), w)"
    using convertir_two_steps [OF ne rd rh d1] d2 by simp
  have "\<bar>f1 * f2 - 1\<bar> \<le> 1 / 10 ^ 27 + 1 / 10 ^ 27 + 1 / 10 ^ 27 * (1 / 10 ^ 27)"
    using f1 f2 by (rule rel_err_mult)
  then have ff: "\<bar>f1 * f2 - 1\<bar> \<le> 21 / 10 ^ 28" by simp
  define T where "T = X / A * B"
  have Tpos: "0 < T" using Xpos Apos Bpos by (simp add: T_def)
  have v2': "real c2 * 10 powi e2 = T * (f1 * f2)" unfolding v2 T_def by simp
  have "real c2 * 10 powi e2 - T = T * (f1 * f2 - 1)"
    unfolding v2' by (simp add: right_diff_distrib)
  then have "\<bar>real c2 * 10 powi e2 - T\<bar> = T * \<bar>f1 * f2 - 1\<bar>"
    using Tpos by (simp add: abs_mult)
  also have "\<dots> \<le> T * (21 / 10 ^ 28)"
    using ff Tpos by (intro mult_left_mono) auto
  finally have "\<bar>real c2 * 10 powi e2 - T\<bar> \<le> T * (21 / 10 ^ 28)" .
  then have "\<bar>fin_val False c2 e2 - fin_val False c e / fin_val False cd ed * fin_val False ch eh\<bar>
        \<le> fin_val False c e / fin_val False cd ed * fin_val False ch eh * (21 / 10 ^ 28)"
    unfolding T_def X_def A_def B_def fin_val_powi by simp
  with run show ?thesis by blast
qed


text \<open>
  C7. \<^verbatim>\<open>convertir\<close> returns the amount itself when both codes are equal; otherwise it
  divides the amount by the rate of the source currency and multiplies the quotient by the
  rate of the target currency, each operation in the context of 28 digits.  For positive
  finite operands of moderate magnitude the result is a finite decimal within
  \<open>21 / 10\<^sup>2\<^sup>8\<close> of the exact value \<open>amount / rate(from) * rate(to)\<close>.
\<close>

theorem convertir_formula:
  "(desde = hacia \<longrightarrow> convertir w monto desde hacia = (Inr monto, w)) \<and>
   (desde \<noteq> hacia \<longrightarrow> map_of (RATES w) desde = Some rd \<longrightarrow> map_of (RATES w) hacia = Some rh \<longrightarrow>
      convertir w monto desde hacia =
        (case dec_div monto rd of Inl ex \<Rightarrow> Inl ex | Inr usd \<Rightarrow> dec_mul usd rh, w)) \<and>
   (desde \<noteq> hacia \<longrightarrow>
    map_of (RATES w) desde = Some (Finite False cd ed) \<longrightarrow>
    map_of (RATES w) hacia = Some (Finite False ch eh) \<longrightarrow>
    0 < cd \<longrightarrow> 0 < ch \<longrightarrow> 0 < c \<longrightarrow>
    \<bar>adjusted c e\<bar> \<le> 300000 \<longrightarrow> \<bar>adjusted cd ed\<bar> \<le> 300000 \<longrightarrow>
    \<bar>adjusted ch eh\<bar> \<le> 300000 \<longrightarrow>
      (\<exists>cy ey.
         convertir w (Finite False c e) desde hacia = (Inr (Finite False cy ey), w) \<and>
         \<bar>fin_val False cy ey - fin_val False c e / fin_val False cd ed * fin_val False ch eh\<bar>
           \<le> fin_val False c e / fin_val False cd ed * fin_val False ch eh * (21 / 10 ^ 28)))"
proof -
  have "desde = hacia \<longrightarrow> convertir w monto desde hacia = (Inr monto, w)"
    by (simp add: convertir_def)
  moreover have "desde \<noteq> hacia \<longrightarrow> map_of (RATES w) desde = Some rd \<longrightarrow>
      map_of (RATES w) hacia = Some rh \<longrightarrow>
      convertir w monto desde hacia =
        (case dec_div monto rd of Inl ex \<Rightarrow> Inl ex | Inr usd \<Rightarrow> dec_mul usd rh, w)"
    by (auto simp: convertir_def lookup_def split: sum.splits)
  moreover note convertir_accurate [of desde hacia w cd ed ch eh c e]
  ultimately show ?thesis by blast
qed

theorem convertir_formula_witness:
  "''USD'' \<noteq> ''MXN''
   \<and> map_of (RATES (initial_world Missing)) ''USD'' = Some (Finite False 1 0)
   \<and> map_of (RATES (initial_world Missing)) ''MXN'' = Some (Finite False 198 (- 1))
   \<and> \<bar>adjusted 100 0\<bar> \<le> 300000 \<and> \<bar>adjusted 1 0\<bar> \<le> 300000
   \<and> \<bar>adjusted 198 (- 1)\<bar> \<le> 300000
   \<and> convertir (initial_world Missing) (Finite False 100 0) ''USD'' ''USD''
        = (Inr (Finite False 100 0), initial_world Missing)
   \<and> convertir (initial_world Missing) (Finite False 100 0) ''USD'' ''MXN''
        = (case dec_div (Finite False 100 0) (Finite False 1 0) of
             Inl ex \<Rightarrow> Inl ex
           | Inr usd \<Rightarrow> dec_mul usd (Finite False 198 (- 1)),
           initial_world Missing)
   \<and> (\<exists>cy ey.
         convertir (initial_world Missing) (Finite False 100 0) ''USD'' ''MXN''
           = (Inr (Finite False cy ey), initial_world Missing) \<and>
         \<bar>fin_val False cy ey
            - fin_val False 100 0 / fin_val False 1 0 * fin_val False 198 (- 1)\<bar>
           \<le> fin_val False 100 0 / fin_val False 1 0 * fin_val False 198 (- 1) * (21 / 10 ^ 28))"
proof -
  have h: "''USD'' \<noteq> ''MXN''"
    "map_of (RATES (initial_world Missing)) ''USD'' = Some (Finite False 1 0)"
    "map_of (RATES (initial_world Missing)) ''MXN'' = Some (Finite False 198 (- 1))"
    "\<bar>adjusted 100 0\<bar> \<le> 300000" "\<bar>adjusted 1 0\<bar> \<le> 300000"
    "\<bar>adjusted 198 (- 1)\<bar> \<le> 300000"
    by (simp_all add: initial_world_def default_rates_def adjusted_def ndigits.simps)
  have p: "(0::nat) < 1" "(0::nat) < 198" "(0::nat) < 100"
    by simp_all
  from convertir_formula
         [of "''USD''" "''USD''" "initial_world Missing" "Finite False 100 0"]
  have same: "convertir (initial_world Missing) (Finite False 100 0) ''USD'' ''USD''
        = (Inr (Finite False 100 0), initial_world Missing)"
    by blast
  note inst = convertir_formula
         [of "''USD''" "''MXN''" "initial_world Missing" "Finite False 100 0"
             "Finite False 1 0" "Finite False 198 (- 1)" 1 0 198 "- 1" 100 0]
  from inst h have formula:
    "convertir (initial_world Missing) (Finite False 100 0) ''USD'' ''MXN''
        = (case dec_div (Finite False 100 0) (Finite False 1 0) of
             Inl ex \<Rightarrow> Inl ex
           | Inr usd \<Rightarrow> dec_mul usd (Finite False 198 (- 1)),
           initial_world Missing)"
    by blast
  from inst h p have accurate: "\<exists>cy ey.
         convertir (initial_world Missing) (Finite False 100 0) ''USD'' ''MXN''
           = (Inr (Finite False cy ey), initial_world Missing) \<and>
         \<bar>fin_val False cy ey
            - fin_val False 100 0 / fin_val False 1 0 * fin_val False 198 (- 1)\<bar>
           \<le> fin_val False 100 0 / fin_val False 1 0 * fin_val False 198 (- 1) * (21 / 10 ^ 28)"
    by blast
  from h same formula accurate show ?thesis by blast
qed




end
